theory Spec2Isabelle
  imports Complex_Main
begin

section \<open>Python string operations used by the scoring engine\<close>

text \<open>
  Prompt texts are modelled as strings of 8-bit characters, read as the Unicode code
  points 0 to 255, and the character classes are Python's on that range: \<open>str.isspace\<close>
  (which \<open>strip\<close>, \<open>split\<close> and the regular expression class \<open>\s\<close> share) holds for
  the codes 9 to 13, 28 to 32, 133 (next line) and 160 (no-break space); \<open>str.isupper\<close>
  holds for the letters A to Z and for the accented capitals 192 to 214 and 216 to 222,
  each of which \<open>str.lower\<close> moves up by 32; the regular expression class \<open>\d\<close> holds
  for the digits 0 to 9. Python floats are modelled by exact rational numbers.
\<close>

definition isspace :: "char \<Rightarrow> bool" where
  "isspace c = (let n = (of_char c :: nat)
                in (9 \<le> n \<and> n \<le> 13) \<or> (28 \<le> n \<and> n \<le> 32) \<or> n = 133 \<or> n = 160)"

definition isupper :: "char \<Rightarrow> bool" where
  "isupper c = (let n = (of_char c :: nat)
                in (65 \<le> n \<and> n \<le> 90) \<or> (192 \<le> n \<and> n \<le> 214) \<or> (216 \<le> n \<and> n \<le> 222))"

definition isdigit :: "char \<Rightarrow> bool" where
  "isdigit c = (let n = (of_char c :: nat) in 48 \<le> n \<and> n \<le> 57)"

definition lower_char :: "char \<Rightarrow> char" where
  "lower_char c = (if isupper c then char_of ((of_char c :: nat) + 32) else c)"

definition lower :: "string \<Rightarrow> string" where
  "lower s = map lower_char s"

text \<open>\<open>s.strip()\<close>: leading and trailing whitespace removed.\<close>

definition strip :: "string \<Rightarrow> string" where
  "strip s = rev (dropWhile isspace (rev (dropWhile isspace s)))"

fun startswith :: "string \<Rightarrow> string \<Rightarrow> bool" where
  "startswith s [] = True"
| "startswith [] (p # ps) = False"
| "startswith (c # cs) (p # ps) = (c = p \<and> startswith cs ps)"

text \<open>\<open>str_in kw s\<close> is Python's \<open>kw in s\<close>: \<open>kw\<close> occurs in \<open>s\<close> as a contiguous substring.\<close>

fun str_in :: "string \<Rightarrow> string \<Rightarrow> bool" where
  "str_in kw [] = (kw = [])"
| "str_in kw (c # cs) = (startswith (c # cs) kw \<or> str_in kw cs)"

text \<open>\<open>s.split()\<close>: the maximal runs of non-whitespace characters, in order.\<close>

fun split_from :: "string \<Rightarrow> string \<Rightarrow> string list" where
  "split_from cur [] = (if cur = [] then [] else [cur])"
| "split_from cur (c # cs) =
     (if isspace c then (if cur = [] then split_from [] cs else cur # split_from [] cs)
      else split_from (cur @ [c]) cs)"

definition split_words :: "string \<Rightarrow> string list" where
  "split_words s = split_from [] s"

text \<open>\<open>sep.join(xs)\<close>.\<close>

fun join :: "string \<Rightarrow> string list \<Rightarrow> string" where
  "join sep [] = []"
| "join sep [x] = x"
| "join sep (x # y # ys) = x @ sep @ join sep (y # ys)"

text \<open>The decimal numeral of a natural number, as an f-string prints it.\<close>

definition digit_char :: "nat \<Rightarrow> char" where
  "digit_char d = char_of (48 + d)"

fun str_of_nat :: "nat \<Rightarrow> string" where
  "str_of_nat n = (if n < 10 then [digit_char n] else str_of_nat (n div 10) @ [digit_char (n mod 10)])"

text \<open>\<open>re.search(r'\d+', s)\<close> finds a match exactly when \<open>s\<close> has a digit.\<close>

definition has_digit :: "string \<Rightarrow> bool" where
  "has_digit s = list_ex isdigit s"

text \<open>
  \<open>re.search(r'(\d+\.|\<bullet>|-)\s', s)\<close>: somewhere in \<open>s\<close> a digit, a full stop and a
  whitespace character follow each other, or a hyphen is followed by a whitespace
  character. The bullet alternative is a character outside the 8-bit alphabet of the
  model and cannot occur in a modelled text.
\<close>

fun has_list_marker :: "string \<Rightarrow> bool" where
  "has_list_marker [] = False"
| "has_list_marker (c # cs) =
     ((case cs of
         [] \<Rightarrow> False
       | d # ds \<Rightarrow>
           (c = CHR ''-'' \<and> isspace d) \<or>
           (isdigit c \<and> d = CHR ''.'' \<and> (case ds of [] \<Rightarrow> False | e # _ \<Rightarrow> isspace e)))
      \<or> has_list_marker cs)"

text \<open>\<open>round(x, 2)\<close>: to the nearest hundredth, a tie going to the even neighbour.\<close>

definition round2 :: "rat \<Rightarrow> rat" where
  "round2 x =
     (let y = x * 100; f = \<lfloor>y\<rfloor>; d = y - of_int f
      in if d < 1 / 2 then of_int f / 100
         else if 1 / 2 < d then of_int (f + 1) / 100
         else if even f then of_int f / 100 else of_int (f + 1) / 100)"

section \<open>The rule-based evaluator (ai_engine.py)\<close>

definition VAGUE_KEYWORDS :: "string list" where
  "VAGUE_KEYWORDS =
     [''something'', ''stuff'', ''thing'', ''things'', ''maybe'', ''etc'', ''whatever'',
      ''somehow'', ''somewhere'', ''anything'', ''everything'', ''nothing'',
      ''kind of'', ''sort of'', ''like'', ''basically'', ''actually'']"

definition CLEAR_ACTION_WORDS :: "string list" where
  "CLEAR_ACTION_WORDS =
     [''create'', ''generate'', ''write'', ''analyze'', ''summarize'', ''explain'',
      ''list'', ''describe'', ''compare'', ''evaluate'', ''implement'', ''design'',
      ''calculate'', ''find'', ''search'', ''extract'', ''convert'', ''translate'',
      ''review'', ''optimize'', ''debug'', ''test'', ''validate'', ''format'']"

definition DOMAIN_KEYWORDS :: "(string \<times> string list) list" where
  "DOMAIN_KEYWORDS =
     [(''healthcare'',
        [''patient'', ''diagnosis'', ''treatment'', ''medical'', ''health'',
         ''symptom'', ''disease'', ''medication'', ''clinical'', ''doctor'',
         ''hospital'', ''therapy'', ''prescription'', ''nursing'', ''surgery'']),
      (''coding'',
        [''function'', ''code'', ''debug'', ''implement'', ''api'', ''class'',
         ''method'', ''variable'', ''algorithm'', ''database'', ''server'',
         ''frontend'', ''backend'', ''python'', ''javascript'', ''sql'']),
      (''education'',
        [''teach'', ''explain'', ''learn'', ''student'', ''lesson'', ''course'',
         ''curriculum'', ''assignment'', ''grade'', ''exam'', ''tutorial'',
         ''concept'', ''theory'', ''practice'', ''exercise'', ''quiz'']),
      (''business'',
        [''revenue'', ''profit'', ''customer'', ''market'', ''strategy'',
         ''sales'', ''product'', ''service'', ''growth'', ''investment'',
         ''roi'', ''kpi'', ''analytics'', ''report'', ''presentation'']),
      (''creative'',
        [''story'', ''poem'', ''character'', ''plot'', ''narrative'',
         ''fiction'', ''dialogue'', ''scene'', ''imagination'', ''creative'',
         ''artistic'', ''style'', ''voice'', ''theme'', ''metaphor'']),
      (''legal'',
        [''contract'', ''agreement'', ''clause'', ''terms'', ''legal'',
         ''compliance'', ''regulation'', ''law'', ''court'', ''litigation'',
         ''policy'', ''liability'', ''rights'', ''obligation'', ''statute''])]"

definition TASK_INDICATORS :: "(string \<times> string list) list" where
  "TASK_INDICATORS =
     [(''generation'',
        [''create'', ''generate'', ''write'', ''produce'', ''make'', ''build'',
         ''compose'', ''draft'', ''construct'', ''develop'', ''design'']),
      (''analysis'',
        [''analyze'', ''evaluate'', ''assess'', ''review'', ''examine'',
         ''investigate'', ''study'', ''inspect'', ''critique'', ''audit'']),
      (''summarization'',
        [''summarize'', ''condense'', ''shorten'', ''brief'', ''synopsis'',
         ''overview'', ''abstract'', ''digest'', ''recap'', ''outline'']),
      (''translation'',
        [''translate'', ''convert'', ''transform'', ''adapt'', ''localize'',
         ''interpret'', ''render'', ''transpose'']),
      (''classification'',
        [''classify'', ''categorize'', ''sort'', ''organize'', ''group'',
         ''label'', ''tag'', ''identify'', ''distinguish'']),
      (''extraction'',
        [''extract'', ''find'', ''locate'', ''identify'', ''retrieve'',
         ''pull'', ''get'', ''fetch'', ''obtain'', ''gather''])]"

record weights =
  w_clarity :: rat
  w_relevance :: rat
  w_length :: rat

definition DEFAULT_WEIGHTS :: weights where
  "DEFAULT_WEIGHTS = \<lparr>w_clarity = 4 / 10, w_relevance = 4 / 10, w_length = 2 / 10\<rparr>"

definition MIN_WORDS :: nat where "MIN_WORDS = 5"
definition OPTIMAL_MIN_WORDS :: nat where "OPTIMAL_MIN_WORDS = 15"
definition OPTIMAL_MAX_WORDS :: nat where "OPTIMAL_MAX_WORDS = 150"
definition MAX_WORDS :: nat where "MAX_WORDS = 300"

text \<open>
  The loop \<open>for keyword in KEYWORDS: if keyword in prompt_lower: found.append(keyword);
  score += delta\<close>, shared by the vague-word, action-word, domain and task rules.
\<close>

fun keyword_loop :: "string list \<Rightarrow> string \<Rightarrow> rat \<Rightarrow> string list \<times> rat \<Rightarrow> string list \<times> rat" where
  "keyword_loop [] prompt_lower delta (found, score) = (found, score)"
| "keyword_loop (k # ks) prompt_lower delta (found, score) =
     (if str_in k prompt_lower
      then keyword_loop ks prompt_lower delta (found @ [k], score + delta)
      else keyword_loop ks prompt_lower delta (found, score))"

definition clamp_score :: "rat \<Rightarrow> rat" where
  "clamp_score score = max 0 (min 100 score)"

record clarity_result =
  cl_score :: rat
  cl_notes :: "string list"
  action_words_found :: "string list"
  vague_words_found :: "string list"

definition calculate_clarity_score :: "string \<Rightarrow> clarity_result" where
  "calculate_clarity_score prompt_text =
     (let prompt_lower = lower prompt_text;
          (vague_found, s1) = keyword_loop VAGUE_KEYWORDS prompt_lower (- 8) ([], 100);
          n1 = (if vague_found \<noteq> []
                then [''Vague terms found: '' @ join '', '' (take 3 vague_found)] else []);
          (action_found, s2) = keyword_loop CLEAR_ACTION_WORDS prompt_lower 5 ([], s1);
          (s3, n3) = (if action_found = []
                      then (s2 - 15, n1 @ [''Missing clear action verbs'']) else (s2, n1));
          s4 = (if CHR ''?'' \<in> set prompt_text then s3 + 5 else s3);
          (s5, n5) = (if has_list_marker prompt_text
                      then (s4 + 10, n3 @ [''Well-structured with lists'']) else (s4, n3));
          s6 = (if has_digit prompt_text then s5 + 5 else s5);
          caps_ratio = of_nat (length (filter isupper prompt_text))
                         / of_nat (max (length prompt_text) 1);
          (s7, n7) = (if (1 / 2 :: rat) < caps_ratio
                      then (s6 - 10, n5 @ [''Too many capital letters'']) else (s6, n5))
      in \<lparr>cl_score = clamp_score s7, cl_notes = n7,
          action_words_found = action_found, vague_words_found = vague_found\<rparr>)"

record relevance_result =
  rel_score :: rat
  rel_notes :: "string list"
  domain_matches :: "string list"
  task_matches :: "string list"

text \<open>
  \<open>task_type\<close> and \<open>domain\<close> are optional: \<open>None\<close> is Python's \<open>None\<close>; a rule block is
  skipped for \<open>None\<close>, for the empty string and for a key that is not in the table.
\<close>

definition lookup_table :: "(string \<times> string list) list \<Rightarrow> string option \<Rightarrow> string list option" where
  "lookup_table table key =
     (case key of
        None \<Rightarrow> None
      | Some k \<Rightarrow> (if k = [] then None else map_of table (lower k)))"

definition calculate_relevance_score :: "string \<Rightarrow> string option \<Rightarrow> string option \<Rightarrow> relevance_result" where
  "calculate_relevance_score prompt_text task_type domain =
     (let prompt_lower = lower prompt_text;
          (dm, s1, n1) =
            (case lookup_table DOMAIN_KEYWORDS domain of
               None \<Rightarrow> ([], 50, [])
             | Some domain_keywords \<Rightarrow>
                 (let (found, s) = keyword_loop domain_keywords prompt_lower 5 ([], 50)
                  in if found = []
                     then (found, s - 10, [''Low relevance to '' @ the domain @ '' domain''])
                     else (found, s, [''Matches '' @ the domain @ '': '' @ join '', '' (take 3 found)])));
          (tm, s2, n2) =
            (case lookup_table TASK_INDICATORS task_type of
               None \<Rightarrow> ([], s1, n1)
             | Some task_keywords \<Rightarrow>
                 (let (found, s) = keyword_loop task_keywords prompt_lower 8 ([], s1)
                  in if found = []
                     then (found, s - 15, n1 @ [''Doesn't align with '' @ the task_type @ '' task''])
                     else (found, s, n1 @ [''Good '' @ the task_type @ '' indicators''])));
          context_words = [''for'', ''about'', ''regarding'', ''concerning'', ''related to''];
          has_context = list_ex (\<lambda>word. str_in word prompt_lower) context_words;
          s3 = (if has_context then s2 + 10 else s2);
          format_words = [''json'', ''list'', ''table'', ''bullet'', ''paragraph'', ''code'', ''markdown''];
          has_format = list_ex (\<lambda>word. str_in word prompt_lower) format_words;
          (s4, n4) = (if has_format then (s3 + 10, n2 @ [''Specifies output format'']) else (s3, n2))
      in \<lparr>rel_score = clamp_score s4, rel_notes = n4, domain_matches = dm, task_matches = tm\<rparr>)"

record length_result =
  len_score :: rat
  len_notes :: "string list"
  word_count :: nat
  optimal_range :: string

definition calculate_length_score :: "string \<Rightarrow> length_result" where
  "calculate_length_score prompt_text =
     (let wc = length (split_words prompt_text);
          words = '' ('' @ str_of_nat wc @ '' words)'';
          (score, notes) =
            (if wc < MIN_WORDS
             then ((of_nat wc / of_nat MIN_WORDS) * 30, [''Too short'' @ words])
             else if wc < OPTIMAL_MIN_WORDS
             then (50 + ((of_nat wc - of_nat MIN_WORDS)
                          / (of_nat OPTIMAL_MIN_WORDS - of_nat MIN_WORDS)) * 30,
                   [''Could be more detailed'' @ words])
             else if wc \<le> OPTIMAL_MAX_WORDS
             then (100, [''Optimal length'' @ words])
             else if wc \<le> MAX_WORDS
             then (100 - ((of_nat wc - of_nat OPTIMAL_MAX_WORDS)
                           / (of_nat MAX_WORDS - of_nat OPTIMAL_MAX_WORDS)) * 30,
                   [''Slightly long'' @ words])
             else (max 0 (70 - ((of_nat wc - of_nat MAX_WORDS) / 50) * 10),
                   [''Too long'' @ words]))
      in \<lparr>len_score = clamp_score score, len_notes = notes, word_count = wc,
          optimal_range = str_of_nat OPTIMAL_MIN_WORDS @ ''-'' @ str_of_nat OPTIMAL_MAX_WORDS\<rparr>)"

text \<open>
  The two text libraries the engine calls are outside the repository and are parameters of
  the model: what \<open>textstat.flesch_reading_ease\<close> and \<open>textstat.text_standard\<close> return on a
  text (\<open>None\<close> when the call raises an exception) and the polarity and subjectivity that
  \<open>TextBlob(text).sentiment\<close> reports.
\<close>

record text_libs =
  textstat_flesch_reading_ease :: "string \<Rightarrow> rat option"
  textstat_text_standard :: "string \<Rightarrow> string option"
  textblob_sentiment :: "string \<Rightarrow> rat \<times> rat"

record readability_result =
  flesch_reading_ease :: rat
  grade_level :: string
  rd_notes :: "string list"

text \<open>The \<open>try\<close> block covers both calls: when either raises, both fallback values are set.\<close>

definition calculate_readability :: "text_libs \<Rightarrow> string \<Rightarrow> readability_result" where
  "calculate_readability libs prompt_text =
     (let (flesch_score, grade) =
            (case textstat_flesch_reading_ease libs prompt_text of
               None \<Rightarrow> (50, ''N/A'')
             | Some f \<Rightarrow>
                 (case textstat_text_standard libs prompt_text of
                    None \<Rightarrow> (50, ''N/A'')
                  | Some g \<Rightarrow> (f, g)));
          notes = (if flesch_score < 30 then [''Very difficult to read'']
                   else if 90 < flesch_score then [''Very simple language''] else [])
      in \<lparr>flesch_reading_ease = flesch_score, grade_level = grade, rd_notes = notes\<rparr>)"

record sentiment_result =
  polarity :: rat
  subjectivity :: rat
  sen_notes :: "string list"

definition analyze_sentiment :: "text_libs \<Rightarrow> string \<Rightarrow> sentiment_result" where
  "analyze_sentiment libs prompt_text =
     (let (pol, subj) = textblob_sentiment libs prompt_text;
          notes = (if 7 / 10 < subj then [''Highly subjective language detected''] else [])
      in \<lparr>polarity = round2 pol, subjectivity = round2 subj, sen_notes = notes\<rparr>)"

record evaluation_result =
  res_clarity_score :: rat
  res_relevance_score :: rat
  res_length_score :: rat
  res_final_score :: rat
  res_evaluation_notes :: string
  details_clarity :: clarity_result
  details_relevance :: relevance_result
  details_length :: length_result
  details_readability :: readability_result
  details_sentiment :: sentiment_result

text \<open>\<open>PromptEvaluator.__init__\<close>: the weights given, or the default ones.\<close>

definition init_weights :: "weights option \<Rightarrow> weights" where
  "init_weights ws = (case ws of None \<Rightarrow> DEFAULT_WEIGHTS | Some w \<Rightarrow> w)"

definition evaluate :: "text_libs \<Rightarrow> weights \<Rightarrow> string \<Rightarrow> string option \<Rightarrow> string option \<Rightarrow> evaluation_result" where
  "evaluate libs self_weights prompt_text task_type domain =
     (let clarity_result = calculate_clarity_score prompt_text;
          relevance_result = calculate_relevance_score prompt_text task_type domain;
          length_result = calculate_length_score prompt_text;
          readability_result = calculate_readability libs prompt_text;
          sentiment_result = analyze_sentiment libs prompt_text;
          final = cl_score clarity_result * w_clarity self_weights
                  + rel_score relevance_result * w_relevance self_weights
                  + len_score length_result * w_length self_weights;
          all_notes = cl_notes clarity_result @ rel_notes relevance_result
                      @ len_notes length_result @ rd_notes readability_result
                      @ sen_notes sentiment_result
      in \<lparr>res_clarity_score = round2 (cl_score clarity_result),
          res_relevance_score = round2 (rel_score relevance_result),
          res_length_score = round2 (len_score length_result),
          res_final_score = round2 final,
          res_evaluation_notes = (if all_notes \<noteq> [] then join '' | '' all_notes
                                  else ''No issues found.''),
          details_clarity = clarity_result,
          details_relevance = relevance_result,
          details_length = length_result,
          details_readability = readability_result,
          details_sentiment = sentiment_result\<rparr>)"

text \<open>The module-level singleton \<open>evaluator = PromptEvaluator()\<close> and its convenience function.\<close>

definition evaluator :: weights where
  "evaluator = init_weights None"

definition evaluate_prompt :: "text_libs \<Rightarrow> string \<Rightarrow> string option \<Rightarrow> string option \<Rightarrow> evaluation_result" where
  "evaluate_prompt libs prompt_text task_type domain =
     evaluate libs evaluator prompt_text task_type domain"

section \<open>The relational store (models.py)\<close>

text \<open>
  The three tables the version lifecycle uses, each a list of rows in storage order.
  Primary keys are drawn from one counter per table. Timestamps are natural numbers.
  Tags, user accounts and the creation timestamps of prompts and versions play no part
  in the operations below and are left out.
\<close>

record prompt =
  p_id :: nat
  user_id :: nat
  title :: string
  description :: string
  task_type :: string
  domain :: "string option"
  is_public :: bool

record prompt_version =
  v_id :: nat
  prompt_id :: nat
  version_number :: nat
  prompt_text :: string
  change_notes :: string
  is_current :: bool

record prompt_evaluation =
  e_id :: nat
  version_id :: nat
  clarity_score :: rat
  relevance_score :: rat
  length_score :: rat
  final_score :: rat
  evaluation_notes :: string
  evaluated_at :: nat

record database =
  prompts :: "prompt list"
  versions :: "prompt_version list"
  evaluations :: "prompt_evaluation list"
  next_prompt_id :: nat
  next_version_id :: nat
  next_evaluation_id :: nat

definition empty_db :: database where
  "empty_db = \<lparr>prompts = [], versions = [], evaluations = [],
               next_prompt_id = 1, next_version_id = 1, next_evaluation_id = 1\<rparr>"

text \<open>
  The HTTP error responses of the routes: 404 is \<open>NotFound\<close>, 403 \<open>AccessDenied\<close>, 400 is
  \<open>InvalidInput\<close> for a failed validation and \<open>InvalidOperation\<close> for the refused deletion
  of the only version, 500 \<open>ServerError\<close> (the \<open>except\<close> branch, after a rollback).
\<close>

datatype error = NotFound | AccessDenied | InvalidInput | InvalidOperation | ServerError

text \<open>\<open>Query.first()\<close>.\<close>

fun first_row :: "'a list \<Rightarrow> 'a option" where
  "first_row [] = None"
| "first_row (x # xs) = Some x"

text \<open>
  \<open>order_by(column.desc())\<close>: the rows by descending key. SQL leaves the order of rows
  with equal keys open; the model keeps them in storage order.
\<close>

fun insert_desc :: "('a \<Rightarrow> 'k::linorder) \<Rightarrow> 'a \<Rightarrow> 'a list \<Rightarrow> 'a list" where
  "insert_desc key x [] = [x]"
| "insert_desc key x (y # ys) =
     (if key y \<le> key x then x # y # ys else y # insert_desc key x ys)"

definition order_by_desc :: "('a \<Rightarrow> 'k::linorder) \<Rightarrow> 'a list \<Rightarrow> 'a list" where
  "order_by_desc key rows = foldr (insert_desc key) rows []"

definition get_version :: "database \<Rightarrow> nat \<Rightarrow> prompt_version option" where
  "get_version db i = find (\<lambda>v. v_id v = i) (versions db)"

definition get_prompt :: "database \<Rightarrow> nat \<Rightarrow> prompt option" where
  "get_prompt db i = find (\<lambda>p. p_id p = i) (prompts db)"

text \<open>\<open>Prompt.query.filter_by(id=prompt_id, user_id=user_id).first()\<close>.\<close>

definition find_owned_prompt :: "database \<Rightarrow> nat \<Rightarrow> nat \<Rightarrow> prompt option" where
  "find_owned_prompt db pid uid = find (\<lambda>p. p_id p = pid \<and> user_id p = uid) (prompts db)"

definition versions_of :: "database \<Rightarrow> nat \<Rightarrow> prompt_version list" where
  "versions_of db pid = filter (\<lambda>v. prompt_id v = pid) (versions db)"

definition get_current_version :: "database \<Rightarrow> nat \<Rightarrow> prompt_version option" where
  "get_current_version db pid = find (\<lambda>v. prompt_id v = pid \<and> is_current v) (versions db)"

definition get_latest_version :: "database \<Rightarrow> nat \<Rightarrow> prompt_version option" where
  "get_latest_version db pid = first_row (order_by_desc version_number (versions_of db pid))"

text \<open>Assigning \<open>is_current\<close> on the loaded row with primary key \<open>i\<close>.\<close>

definition set_flag :: "nat \<Rightarrow> bool \<Rightarrow> prompt_version list \<Rightarrow> prompt_version list" where
  "set_flag i b vs = map (\<lambda>v. if v_id v = i then v\<lparr>is_current := b\<rparr> else v) vs"

text \<open>The constraint \<open>unique_version_per_prompt\<close>, checked when a row is inserted.\<close>

definition violates_unique :: "database \<Rightarrow> prompt_version \<Rightarrow> bool" where
  "violates_unique db nv =
     list_ex (\<lambda>v. prompt_id v = prompt_id nv \<and> version_number v = version_number nv) (versions db)"

text \<open>\<open>Prompt.to_dict(include_versions=True)\<close>, without the tags.\<close>

record prompt_view =
  view_prompt :: prompt
  version_count :: nat
  current_version :: "prompt_version option"
  view_versions :: "prompt_version list"

definition prompt_to_dict :: "database \<Rightarrow> prompt \<Rightarrow> prompt_view" where
  "prompt_to_dict db p =
     \<lparr>view_prompt = p,
      version_count = length (versions_of db (p_id p)),
      current_version = get_current_version db (p_id p),
      view_versions = order_by_desc version_number (versions_of db (p_id p))\<rparr>"

section \<open>Prompt routes (routes/prompts.py)\<close>

text \<open>
  A request body is a JSON object whose text fields are strings; a field that is absent
  is \<open>None\<close>. \<open>get_str\<close> is \<open>data.get(key, '')\<close>. Every route takes the caller's verified
  identity \<open>uid\<close> and returns its response together with the stored state after it.
\<close>

definition get_str :: "string option \<Rightarrow> string" where
  "get_str x = (case x of None \<Rightarrow> [] | Some s \<Rightarrow> s)"

record create_data =
  cd_title :: "string option"
  cd_description :: "string option"
  cd_task_type :: "string option"
  cd_domain :: "string option"
  cd_prompt_text :: "string option"
  cd_is_public :: "bool option"

definition create_prompt :: "database \<Rightarrow> nat \<Rightarrow> create_data \<Rightarrow> (error + prompt_view) \<times> database" where
  "create_prompt db uid data =
     (let new_title = strip (get_str (cd_title data));
          new_task = strip (get_str (cd_task_type data));
          text = strip (get_str (cd_prompt_text data))
      in if new_title = [] then (Inl InvalidInput, db)
         else if new_task = [] then (Inl InvalidInput, db)
         else if text = [] then (Inl InvalidInput, db)
         else
           (let d = strip (get_str (cd_domain data));
                p = \<lparr>p_id = next_prompt_id db, user_id = uid, title = new_title,
                     description = strip (get_str (cd_description data)),
                     task_type = new_task,
                     domain = (if d = [] then None else Some d),
                     is_public = (case cd_is_public data of None \<Rightarrow> False | Some b \<Rightarrow> b)\<rparr>;
                version = \<lparr>v_id = next_version_id db, prompt_id = p_id p, version_number = 1,
                           prompt_text = text, change_notes = ''Initial version'',
                           is_current = True\<rparr>
            in if violates_unique db version then (Inl ServerError, db)
               else
                 (let db' = db\<lparr>prompts := prompts db @ [p],
                                versions := versions db @ [version],
                                next_prompt_id := Suc (next_prompt_id db),
                                next_version_id := Suc (next_version_id db)\<rparr>
                  in (Inr (prompt_to_dict db' p), db'))))"

record update_data =
  ud_title :: "string option"
  ud_description :: "string option"
  ud_task_type :: "string option"
  ud_domain :: "string option"
  ud_prompt_text :: "string option"
  ud_change_notes :: "string option"
  ud_is_public :: "bool option"

definition update_metadata :: "update_data \<Rightarrow> prompt \<Rightarrow> prompt" where
  "update_metadata data p =
     (let p1 = (case ud_title data of None \<Rightarrow> p | Some t \<Rightarrow> p\<lparr>title := strip t\<rparr>);
          p2 = (case ud_description data of None \<Rightarrow> p1 | Some t \<Rightarrow> p1\<lparr>description := strip t\<rparr>);
          p3 = (case ud_task_type data of None \<Rightarrow> p2 | Some t \<Rightarrow> p2\<lparr>task_type := strip t\<rparr>);
          p4 = (case ud_domain data of None \<Rightarrow> p3
                | Some t \<Rightarrow> p3\<lparr>domain := (if strip t = [] then None else Some (strip t))\<rparr>)
      in (case ud_is_public data of None \<Rightarrow> p4 | Some b \<Rightarrow> p4\<lparr>is_public := b\<rparr>))"

text \<open>
  The block of \<open>update_prompt\<close> under \<open>if 'prompt_text' in data and data['prompt_text'].strip()\<close>,
  for the stripped text: the new version, if one is made, and the state with it.
\<close>

definition new_version_if_changed :: "database \<Rightarrow> nat \<Rightarrow> update_data \<Rightarrow> string \<Rightarrow> prompt_version option \<times> database" where
  "new_version_if_changed db pid data text =
     (let current = get_current_version db pid
      in if (case current of None \<Rightarrow> True | Some c \<Rightarrow> prompt_text c \<noteq> text)
         then
           (let db1 = (case current of None \<Rightarrow> db
                       | Some c \<Rightarrow> db\<lparr>versions := set_flag (v_id c) False (versions db)\<rparr>);
                latest = get_latest_version db1 pid;
                next_version = (case latest of None \<Rightarrow> 1 | Some l \<Rightarrow> version_number l + 1);
                nv = \<lparr>v_id = next_version_id db1, prompt_id = pid, version_number = next_version,
                      prompt_text = text,
                      change_notes = (case ud_change_notes data of
                                        None \<Rightarrow> ''Version '' @ str_of_nat next_version
                                      | Some n \<Rightarrow> n),
                      is_current = True\<rparr>
            in (Some nv, db1\<lparr>versions := versions db1 @ [nv],
                             next_version_id := Suc (next_version_id db1)\<rparr>))
         else (None, db))"

record update_response =
  upd_prompt :: prompt_view
  upd_new_version :: "prompt_version option"

definition update_prompt :: "database \<Rightarrow> nat \<Rightarrow> nat \<Rightarrow> update_data \<Rightarrow> (error + update_response) \<times> database" where
  "update_prompt db uid pid data =
     (case find_owned_prompt db pid uid of
        None \<Rightarrow> (Inl NotFound, db)
      | Some p \<Rightarrow>
          (let p' = update_metadata data p;
               db1 = db\<lparr>prompts := map (\<lambda>q. if p_id q = pid then p' else q) (prompts db)\<rparr>;
               (new_version, db2) =
                 (case ud_prompt_text data of
                    None \<Rightarrow> (None, db1)
                  | Some t \<Rightarrow>
                      (if strip t = [] then (None, db1)
                       else new_version_if_changed db1 pid data (strip t)))
           in if (case new_version of None \<Rightarrow> False | Some nv \<Rightarrow> violates_unique db1 nv)
              then (Inl ServerError, db)
              else (Inr \<lparr>upd_prompt = prompt_to_dict db2 p', upd_new_version = new_version\<rparr>, db2)))"

text \<open>Deleting a prompt cascades to its versions and to their evaluations.\<close>

definition delete_prompt :: "database \<Rightarrow> nat \<Rightarrow> nat \<Rightarrow> (error + unit) \<times> database" where
  "delete_prompt db uid pid =
     (case find_owned_prompt db pid uid of
        None \<Rightarrow> (Inl NotFound, db)
      | Some p \<Rightarrow>
          (let gone = map v_id (versions_of db pid)
           in (Inr (),
               db\<lparr>prompts := filter (\<lambda>q. p_id q \<noteq> pid) (prompts db),
                  versions := filter (\<lambda>v. prompt_id v \<noteq> pid) (versions db),
                  evaluations := filter (\<lambda>e. version_id e \<notin> set gone) (evaluations db)\<rparr>)))"

section \<open>Version routes (routes/versions.py)\<close>

text \<open>
  \<open>version.prompt\<close> is the prompt row the version refers to; were it missing, reading its
  \<open>user_id\<close> would raise inside the \<open>try\<close> block and the route would answer 500.
\<close>

definition set_current_version :: "database \<Rightarrow> nat \<Rightarrow> nat \<Rightarrow> (error + prompt_version) \<times> database" where
  "set_current_version db uid vid =
     (case get_version db vid of
        None \<Rightarrow> (Inl NotFound, db)
      | Some version \<Rightarrow>
          (case get_prompt db (prompt_id version) of
             None \<Rightarrow> (Inl ServerError, db)
           | Some p \<Rightarrow>
               (if user_id p \<noteq> uid then (Inl AccessDenied, db)
                else
                  (let vs1 = map (\<lambda>v. if prompt_id v = p_id p then v\<lparr>is_current := False\<rparr> else v)
                               (versions db);
                       vs2 = set_flag vid True vs1
                   in (Inr (version\<lparr>is_current := True\<rparr>), db\<lparr>versions := vs2\<rparr>)))))"

definition delete_version :: "database \<Rightarrow> nat \<Rightarrow> nat \<Rightarrow> (error + nat) \<times> database" where
  "delete_version db uid vid =
     (case get_version db vid of
        None \<Rightarrow> (Inl NotFound, db)
      | Some version \<Rightarrow>
          (case get_prompt db (prompt_id version) of
             None \<Rightarrow> (Inl ServerError, db)
           | Some p \<Rightarrow>
               (if user_id p \<noteq> uid then (Inl AccessDenied, db)
                else
                  (let count = length (versions_of db (p_id p))
                   in if count \<le> 1 then (Inl InvalidOperation, db)
                      else
                        (let was_current = is_current version;
                             vs1 = filter (\<lambda>v. v_id v \<noteq> vid) (versions db);
                             evs1 = filter (\<lambda>e. version_id e \<noteq> vid) (evaluations db);
                             vs2 = (if was_current
                                    then (case first_row (order_by_desc version_number
                                                 (filter (\<lambda>v. prompt_id v = p_id p \<and> v_id v \<noteq> vid) vs1)) of
                                            None \<Rightarrow> vs1
                                          | Some new_current \<Rightarrow> set_flag (v_id new_current) True vs1)
                                    else vs1)
                         in (Inr (version_number version),
                             db\<lparr>versions := vs2, evaluations := evs1\<rparr>))))))"

section \<open>Evaluation routes (routes/evaluation.py)\<close>

record evaluate_response =
  evr_evaluation :: prompt_evaluation
  evr_details :: evaluation_result

text \<open>
  \<open>now\<close> is the clock reading that the column default \<open>datetime.utcnow\<close> stores. The
  improvement suggestions of the response are computed from the result alone and are
  not part of the model.
\<close>

definition evaluate_version :: "text_libs \<Rightarrow> database \<Rightarrow> nat \<Rightarrow> nat \<Rightarrow> nat \<Rightarrow> (error + evaluate_response) \<times> database" where
  "evaluate_version libs db uid vid now =
     (case get_version db vid of
        None \<Rightarrow> (Inl NotFound, db)
      | Some version \<Rightarrow>
          (case get_prompt db (prompt_id version) of
             None \<Rightarrow> (Inl ServerError, db)
           | Some p \<Rightarrow>
               (if user_id p \<noteq> uid then (Inl AccessDenied, db)
                else
                  (let result = evaluate_prompt libs (prompt_text version)
                                  (Some (task_type p)) (domain p);
                       evaluation = \<lparr>e_id = next_evaluation_id db,
                                      version_id = v_id version,
                                      clarity_score = res_clarity_score result,
                                      relevance_score = res_relevance_score result,
                                      length_score = res_length_score result,
                                      final_score = res_final_score result,
                                      evaluation_notes = res_evaluation_notes result,
                                      evaluated_at = now\<rparr>
                   in (Inr \<lparr>evr_evaluation = evaluation, evr_details = result\<rparr>,
                       db\<lparr>evaluations := evaluations db @ [evaluation],
                          next_evaluation_id := Suc (next_evaluation_id db)\<rparr>)))))"

text \<open>
  \<open>db.session.query(PromptEvaluation).join(PromptVersion).filter(PromptVersion.prompt_id
  == prompt_id)\<close>: every evaluation whose version belongs to the prompt, with that version.
\<close>

definition evaluations_of_prompt :: "database \<Rightarrow> nat \<Rightarrow> (prompt_evaluation \<times> prompt_version) list" where
  "evaluations_of_prompt db pid =
     List.map_filter
       (\<lambda>e. case get_version db (version_id e) of
               None \<Rightarrow> None
             | Some v \<Rightarrow> (if prompt_id v = pid then Some (e, v) else None))
       (evaluations db)"

record alternative =
  alt_version_number :: nat
  alt_final_score :: rat
  alt_version_id :: nat

record recommendation =
  rec_version :: prompt_version
  rec_evaluation :: prompt_evaluation
  rec_is_current :: bool
  rec_alternatives :: "alternative list"

definition get_recommendation :: "database \<Rightarrow> nat \<Rightarrow> nat \<Rightarrow> error + recommendation" where
  "get_recommendation db uid pid =
     (case find_owned_prompt db pid uid of
        None \<Rightarrow> Inl NotFound
      | Some p \<Rightarrow>
          (case first_row (order_by_desc (\<lambda>(e, v). final_score e) (evaluations_of_prompt db pid)) of
             None \<Rightarrow> Inl NotFound
           | Some (best, best_version) \<Rightarrow>
               (let alternatives =
                      take 5 (order_by_desc (\<lambda>(e, v). final_score e)
                                (filter (\<lambda>(e, v). e_id e \<noteq> e_id best) (evaluations_of_prompt db pid)))
                in Inr \<lparr>rec_version = best_version,
                        rec_evaluation = best,
                        rec_is_current = is_current best_version,
                        rec_alternatives =
                          map (\<lambda>(e, v). \<lparr>alt_version_number = version_number v,
                                         alt_final_score = final_score e,
                                         alt_version_id = version_id e\<rparr>) alternatives\<rparr>)))"

section \<open>Invariants of the store\<close>

text \<open>The number of versions of prompt \<open>pid\<close> that are flagged current.\<close>

definition count_current :: "prompt_version list \<Rightarrow> nat \<Rightarrow> nat" where
  "count_current vs pid = length (filter (\<lambda>v. prompt_id v = pid \<and> is_current v) vs)"

definition current_count :: "database \<Rightarrow> nat \<Rightarrow> nat" where
  "current_count db pid = count_current (versions db) pid"

text \<open>Every prompt that has a version has exactly one current version.\<close>

definition single_current :: "database \<Rightarrow> bool" where
  "single_current db = (\<forall>v \<in> set (versions db). current_count db (prompt_id v) = 1)"

text \<open>
  What the database itself guarantees: primary keys are unique and were drawn from the
  counters, and a version's prompt reference was drawn from the prompt counter.
\<close>

definition db_wf :: "database \<Rightarrow> bool" where
  "db_wf db =
     (distinct (map p_id (prompts db)) \<and>
      distinct (map v_id (versions db)) \<and>
      distinct (map e_id (evaluations db)) \<and>
      (\<forall>p \<in> set (prompts db). p_id p < next_prompt_id db) \<and>
      (\<forall>v \<in> set (versions db). v_id v < next_version_id db \<and> prompt_id v < next_prompt_id db) \<and>
      (\<forall>e \<in> set (evaluations db). e_id e < next_evaluation_id db))"

text \<open>The structural operations, and the state each leaves behind.\<close>

datatype operation =
    CreatePrompt nat create_data
  | UpdatePrompt nat nat update_data
  | SetCurrentVersion nat nat
  | DeleteVersion nat nat
  | DeletePrompt nat nat

fun apply_operation :: "database \<Rightarrow> operation \<Rightarrow> database" where
  "apply_operation db (CreatePrompt uid data) = snd (create_prompt db uid data)"
| "apply_operation db (UpdatePrompt uid pid data) = snd (update_prompt db uid pid data)"
| "apply_operation db (SetCurrentVersion uid vid) = snd (set_current_version db uid vid)"
| "apply_operation db (DeleteVersion uid vid) = snd (delete_version db uid vid)"
| "apply_operation db (DeletePrompt uid pid) = snd (delete_prompt db uid pid)"

text \<open>A sequence of operations, applied one after the other.\<close>

fun run :: "database \<Rightarrow> operation list \<Rightarrow> database" where
  "run db [] = db"
| "run db (op # ops) = run (apply_operation db op) ops"

text \<open>The number that the next version of a prompt with the versions \<open>xs\<close> is given.\<close>

definition next_number :: "prompt_version list \<Rightarrow> nat" where
  "next_number xs = (if xs = [] then 1 else Max (version_number ` set xs) + 1)"

section \<open>A worked history\<close>

text \<open>
  The history of the workflow test: user 1 creates a prompt with the text
  "Write a function." and then updates the text, which makes version 2. Later the user
  deletes version 2 and updates the text once more.
\<close>

definition ex_create :: create_data where
  "ex_create = \<lparr>cd_title = Some ''Test Prompt'', cd_description = None,
                 cd_task_type = Some ''generation'', cd_domain = Some ''coding'',
                 cd_prompt_text = Some ''Write a function.'', cd_is_public = None\<rparr>"

definition fib_text :: string where
  "fib_text = ''Write a Python function to calculate Fibonacci. Use recursion.''"

text \<open>
  The text of version 2 between a no-break space and blanks in front and a tab and a
  next-line character behind.
\<close>

definition padded_text :: string where
  "padded_text = CHR 0xA0 # ''  '' @ fib_text @ [CHR 0x09, CHR 0x85]"

definition ex_update :: "string \<Rightarrow> update_data" where
  "ex_update t = \<lparr>ud_title = None, ud_description = None, ud_task_type = None,
                   ud_domain = None, ud_prompt_text = Some t, ud_change_notes = None,
                   ud_is_public = None\<rparr>"

definition ex_prompt :: prompt where
  "ex_prompt = \<lparr>p_id = 1, user_id = 1, title = ''Test Prompt'', description = [],
                 task_type = ''generation'', domain = Some ''coding'', is_public = False\<rparr>"

definition db_one :: database where
  "db_one = snd (create_prompt empty_db 1 ex_create)"

definition db_two :: database where
  "db_two = snd (update_prompt db_one 1 1
                   (ex_update fib_text))"

definition db_after_delete :: database where
  "db_after_delete = snd (delete_version db_two 1 2)"

definition db_reused :: database where
  "db_reused = snd (update_prompt db_after_delete 1 1 (ex_update ''Write a sorting function.''))"

text \<open>Text libraries whose readability calls raise and whose sentiment is neutral.\<close>

definition failing_libs :: text_libs where
  "failing_libs = \<lparr>textstat_flesch_reading_ease = (\<lambda>t. None),
                    textstat_text_standard = (\<lambda>t. None),
                    textblob_sentiment = (\<lambda>t. (0, 0))\<rparr>"

text \<open>
  Libraries that differ from the failing ones on every text but the one of version 2, and
  a text made of symbols only.
\<close>

definition other_libs :: text_libs where
  "other_libs = \<lparr>textstat_flesch_reading_ease = (\<lambda>t. if t = fib_text then None else Some 80),
                  textstat_text_standard = (\<lambda>t. if t = fib_text then None else Some ''8th and 9th grade''),
                  textblob_sentiment = (\<lambda>t. if t = fib_text then (0, 0) else (1 / 2, 9 / 10))\<rparr>"

definition symbols_text :: string where
  "symbols_text = ''!!! ???''"

text \<open>The rows of the worked history, and version 2 evaluated at time 10 and again at time 20.\<close>

definition ex_version1 :: prompt_version where
  "ex_version1 = \<lparr>v_id = 1, prompt_id = 1, version_number = 1,
                   prompt_text = ''Write a function.'', change_notes = ''Initial version'',
                   is_current = True\<rparr>"

definition ex_version2 :: prompt_version where
  "ex_version2 = \<lparr>v_id = 2, prompt_id = 1, version_number = 2, prompt_text = fib_text,
                   change_notes = ''Version 2'', is_current = True\<rparr>"

definition ex_evaluation :: "nat \<Rightarrow> nat \<Rightarrow> prompt_evaluation" where
  "ex_evaluation i t =
     \<lparr>e_id = i, version_id = 2, clarity_score = 100, relevance_score = 68,
      length_score = 62, final_score = 398 / 5,
      evaluation_notes = ''Matches coding: function, python | Good generation indicators | Could be more detailed (9 words)'',
      evaluated_at = t\<rparr>"

definition db_evaluated_once :: database where
  "db_evaluated_once = snd (evaluate_version failing_libs db_two 1 2 10)"

definition db_evaluated_twice :: database where
  "db_evaluated_twice = snd (evaluate_version failing_libs db_evaluated_once 1 2 20)"

text \<open>The recommendation for the prompt once version 2 has been evaluated twice.\<close>

definition ex_recommendation :: recommendation where
  "ex_recommendation =
     \<lparr>rec_version = ex_version2, rec_evaluation = ex_evaluation 1 10, rec_is_current = True,
      rec_alternatives = [\<lparr>alt_version_number = 2, alt_final_score = 398 / 5, alt_version_id = 2\<rparr>]\<rparr>"

section \<open>Properties of the queries\<close>

lemma set_insert_desc: "set (insert_desc key x ys) = insert x (set ys)"
  by (induction ys) auto

lemma set_order_by_desc: "set (order_by_desc key xs) = set xs"
  by (induction xs) (auto simp: order_by_desc_def set_insert_desc)

lemma length_insert_desc: "length (insert_desc key x ys) = Suc (length ys)"
  by (induction ys) auto

lemma length_order_by_desc: "length (order_by_desc key xs) = length xs"
  by (induction xs) (auto simp: order_by_desc_def length_insert_desc)

lemma sorted_insert_desc:
  "sorted_wrt (\<lambda>a b. key b \<le> key a) ys \<Longrightarrow> sorted_wrt (\<lambda>a b. key b \<le> key a) (insert_desc key x ys)"
  by (induction ys) (auto simp: set_insert_desc)

lemma sorted_order_by_desc: "sorted_wrt (\<lambda>a b. key b \<le> key a) (order_by_desc key xs)"
  by (induction xs) (auto simp: order_by_desc_def sorted_insert_desc)

lemma first_row_None: "first_row xs = None \<longleftrightarrow> xs = []"
  by (cases xs) auto

lemma first_row_Some: "first_row xs = Some x \<longleftrightarrow> (\<exists>ys. xs = x # ys)"
  by (cases xs) auto

lemma first_order_by_desc_None: "first_row (order_by_desc key xs) = None \<longleftrightarrow> xs = []"
  using length_order_by_desc [of key xs] by (auto simp: first_row_None)

lemma first_order_by_desc_Some:
  assumes "first_row (order_by_desc key xs) = Some m"
  shows "m \<in> set xs \<and> (\<forall>x \<in> set xs. key x \<le> key m)"
proof -
  from assms obtain ys where ys: "order_by_desc key xs = m # ys"
    by (auto simp: first_row_Some)
  have "set xs = insert m (set ys)"
    using set_order_by_desc [of key xs] ys by simp
  moreover have "\<forall>y \<in> set ys. key y \<le> key m"
    using sorted_order_by_desc [of key xs] ys by simp
  ultimately show ?thesis by auto
qed

lemma sorted_take: "sorted_wrt R xs \<Longrightarrow> sorted_wrt R (take n xs)"
  by (metis append_take_drop_id sorted_wrt_append)

section \<open>The scoring scenario\<close>

lemma relevance_write_a_function:
  "calculate_relevance_score ''Write a function.'' (Some ''generation'') (Some ''coding'')
     = \<lparr>rel_score = 63,
        rel_notes = [''Matches coding: function'', ''Good generation indicators''],
        domain_matches = [''function''], task_matches = [''write'']\<rparr>"
  by code_simp

lemma length_write_a_function:
  "calculate_length_score ''Write a function.''
     = \<lparr>len_score = 18, len_notes = [''Too short (3 words)''], word_count = 3,
        optimal_range = ''15-150''\<rparr>"
  by code_simp

lemma round2_scenario: "round2 63 = 63" "round2 18 = 18"
  by (simp_all add: round2_def)

text \<open>
  Claim C3, as stated: for the text "Write a function." with task type generation and
  domain coding the relevance score is 48, the domain rule finding no keyword. It is not:
  the coding keyword list holds "function", which occurs in the text, so the domain rule
  adds 5 and does not subtract 10.
\<close>

theorem relevance_48_counterexample:
  "rel_score (calculate_relevance_score ''Write a function.'' (Some ''generation'') (Some ''coding'')) \<noteq> 48"
  by (simp add: relevance_write_a_function)

text \<open>
  Claim C3, amended: for the text "Write a function." with task type generation and
  domain coding the relevance score is exactly 63 (base 50, plus 5 for the coding keyword
  "function", plus 8 for the generation keyword "write", no context or format bonus), and
  the length score is exactly (3/5)*30 = 18, the word count being 3. The evaluator reports
  the same two numbers after rounding, whatever the text libraries return.
\<close>

theorem write_a_function_scores:
  "rel_score (calculate_relevance_score ''Write a function.'' (Some ''generation'') (Some ''coding'')) = 63
   \<and> domain_matches (calculate_relevance_score ''Write a function.'' (Some ''generation'') (Some ''coding'')) = [''function'']
   \<and> task_matches (calculate_relevance_score ''Write a function.'' (Some ''generation'') (Some ''coding'')) = [''write'']
   \<and> word_count (calculate_length_score ''Write a function.'') = 3
   \<and> len_score (calculate_length_score ''Write a function.'') = 3 / 5 * 30
   \<and> res_relevance_score (evaluate_prompt libs ''Write a function.'' (Some ''generation'') (Some ''coding'')) = 63
   \<and> res_length_score (evaluate_prompt libs ''Write a function.'' (Some ''generation'') (Some ''coding'')) = 18"
  by (simp add: evaluate_prompt_def evaluate_def Let_def relevance_write_a_function
        length_write_a_function round2_scenario)

section \<open>Counting current versions\<close>

lemma count_current_Nil [simp]: "count_current [] pid = 0"
  by (simp add: count_current_def)

lemma count_current_Cons:
  "count_current (v # vs) pid = (if prompt_id v = pid \<and> is_current v then 1 else 0) + count_current vs pid"
  by (simp add: count_current_def)

lemma count_current_append:
  "count_current (vs @ ws) pid = count_current vs pid + count_current ws pid"
  by (simp add: count_current_def)

lemma count_current_zero_iff:
  "count_current vs pid = 0 \<longleftrightarrow> (\<forall>v \<in> set vs. prompt_id v = pid \<longrightarrow> \<not> is_current v)"
  by (auto simp: count_current_def filter_empty_conv)

lemma set_flag_absent: "i \<notin> v_id ` set vs \<Longrightarrow> set_flag i b vs = vs"
  by (induction vs) (auto simp: set_flag_def)

lemma map_v_id_set_flag [simp]: "map v_id (set_flag i b vs) = map v_id vs"
  by (induction vs) (auto simp: set_flag_def)

lemma map_prompt_id_set_flag [simp]: "map prompt_id (set_flag i b vs) = map prompt_id vs"
  by (induction vs) (auto simp: set_flag_def)

lemma map_version_number_set_flag [simp]: "map version_number (set_flag i b vs) = map version_number vs"
  by (induction vs) (auto simp: set_flag_def)

lemma length_set_flag [simp]: "length (set_flag i b vs) = length vs"
  by (simp add: set_flag_def)

lemma count_current_set_flag_other:
  "\<forall>v \<in> set vs. v_id v = i \<longrightarrow> prompt_id v \<noteq> pid \<Longrightarrow>
   count_current (set_flag i b vs) pid = count_current vs pid"
  by (induction vs) (auto simp: set_flag_def count_current_Cons)

lemma count_current_set_flag_False:
  "distinct (map v_id vs) \<Longrightarrow> c \<in> set vs \<Longrightarrow> is_current c \<Longrightarrow>
   Suc (count_current (set_flag (v_id c) False vs) (prompt_id c)) = count_current vs (prompt_id c)"
proof (induction vs)
  case Nil
  then show ?case by simp
next
  case (Cons v vs)
  show ?case
  proof (cases "v_id v = v_id c")
    case True
    with Cons.prems have vc: "v = c" and "v_id c \<notin> v_id ` set vs"
      by (auto simp: image_iff)
    then have "set_flag (v_id c) False vs = vs" by (simp add: set_flag_absent)
    then have "set_flag (v_id c) False (v # vs) = c\<lparr>is_current := False\<rparr> # vs"
      using vc by (simp add: set_flag_def)
    with Cons.prems vc show ?thesis by (simp add: count_current_Cons)
  next
    case False
    with Cons.prems have "c \<in> set vs" "distinct (map v_id vs)" by auto
    with Cons.IH Cons.prems have
      "Suc (count_current (set_flag (v_id c) False vs) (prompt_id c)) = count_current vs (prompt_id c)"
      by simp
    moreover have "set_flag (v_id c) False (v # vs) = v # set_flag (v_id c) False vs"
      using False by (simp add: set_flag_def)
    ultimately show ?thesis by (simp add: count_current_Cons)
  qed
qed

lemma count_current_set_flag_True:
  "distinct (map v_id vs) \<Longrightarrow> c \<in> set vs \<Longrightarrow> \<not> is_current c \<Longrightarrow>
   count_current (set_flag (v_id c) True vs) (prompt_id c) = Suc (count_current vs (prompt_id c))"
proof (induction vs)
  case Nil
  then show ?case by simp
next
  case (Cons v vs)
  show ?case
  proof (cases "v_id v = v_id c")
    case True
    with Cons.prems have vc: "v = c" and "v_id c \<notin> v_id ` set vs"
      by (auto simp: image_iff)
    then have "set_flag (v_id c) True vs = vs" by (simp add: set_flag_absent)
    then have "set_flag (v_id c) True (v # vs) = c\<lparr>is_current := True\<rparr> # vs"
      using vc by (simp add: set_flag_def)
    with Cons.prems vc show ?thesis by (simp add: count_current_Cons)
  next
    case False
    with Cons.prems have "c \<in> set vs" "distinct (map v_id vs)" by auto
    with Cons.IH Cons.prems have
      "count_current (set_flag (v_id c) True vs) (prompt_id c) = Suc (count_current vs (prompt_id c))"
      by simp
    moreover have "set_flag (v_id c) True (v # vs) = v # set_flag (v_id c) True vs"
      using False by (simp add: set_flag_def)
    ultimately show ?thesis by (simp add: count_current_Cons)
  qed
qed

lemma distinct_id_eq:
  "distinct (map v_id vs) \<Longrightarrow> v \<in> set vs \<Longrightarrow> w \<in> set vs \<Longrightarrow> v_id v = v_id w \<Longrightarrow> v = w"
  by (meson distinct_map inj_onD)

lemma count_current_remove_id:
  "distinct (map v_id vs) \<Longrightarrow> c \<in> set vs \<Longrightarrow>
   count_current (filter (\<lambda>v. v_id v \<noteq> v_id c) vs) pid
     + (if prompt_id c = pid \<and> is_current c then 1 else 0) = count_current vs pid"
proof (induction vs)
  case Nil
  then show ?case by simp
next
  case (Cons v vs)
  show ?case
  proof (cases "v_id v = v_id c")
    case True
    with Cons.prems have vc: "v = c" and "v_id c \<notin> v_id ` set vs"
      by (auto simp: image_iff)
    then have "\<forall>x \<in> set vs. v_id x \<noteq> v_id c"
      by (metis image_eqI)
    then have "filter (\<lambda>v. v_id v \<noteq> v_id c) vs = vs"
      by (simp add: filter_id_conv)
    with vc show ?thesis by (simp add: count_current_Cons)
  next
    case False
    with Cons.prems have "c \<in> set vs" "distinct (map v_id vs)" by auto
    with Cons.IH have
      "count_current (filter (\<lambda>v. v_id v \<noteq> v_id c) vs) pid
         + (if prompt_id c = pid \<and> is_current c then 1 else 0) = count_current vs pid"
      by simp
    with False show ?thesis by (simp add: count_current_Cons)
  qed
qed

lemma count_current_remove_prompt:
  "p \<noteq> pid \<Longrightarrow> count_current (filter (\<lambda>v. prompt_id v \<noteq> pid) vs) p = count_current vs p"
  by (induction vs) (auto simp: count_current_Cons)

lemma count_current_clear_same:
  "count_current (map (\<lambda>v. if prompt_id v = pid then v\<lparr>is_current := False\<rparr> else v) vs) pid = 0"
  by (induction vs) (auto simp: count_current_Cons)

lemma count_current_clear_other:
  "p \<noteq> pid \<Longrightarrow>
   count_current (map (\<lambda>v. if prompt_id v = pid then v\<lparr>is_current := False\<rparr> else v) vs) p
     = count_current vs p"
  by (induction vs) (auto simp: count_current_Cons)

lemma find_current_None:
  "find (\<lambda>v. prompt_id v = pid \<and> is_current v) vs = None \<longleftrightarrow> count_current vs pid = 0"
  by (auto simp: find_None_iff count_current_zero_iff)

lemma find_SomeD: "find P xs = Some x \<Longrightarrow> x \<in> set xs \<and> P x"
  by (auto simp: find_Some_iff)

section \<open>The operations preserve the invariants\<close>

lemma create_prompt_single_current:
  assumes wf: "db_wf db" and inv: "single_current db"
  shows "single_current (snd (create_prompt db uid data))"
proof -
  have fresh: "\<forall>v \<in> set (versions db). prompt_id v \<noteq> next_prompt_id db"
    using wf by (auto simp: db_wf_def)
  then have zero: "count_current (versions db) (next_prompt_id db) = 0"
    by (simp add: count_current_zero_iff)
  show ?thesis
    using inv fresh zero
    by (auto simp: create_prompt_def Let_def single_current_def current_count_def
        count_current_append count_current_Cons)
qed

lemma create_prompt_wf:
  assumes wf: "db_wf db"
  shows "db_wf (snd (create_prompt db uid data))"
  using wf by (fastforce simp: create_prompt_def Let_def db_wf_def)

lemma single_current_iff:
  "single_current db \<longleftrightarrow> (\<forall>v \<in> set (versions db). count_current (versions db) (prompt_id v) = 1)"
  by (simp add: single_current_def current_count_def)

lemma prompt_id_set_flag_mem:
  "v \<in> set (set_flag i b vs) \<Longrightarrow> prompt_id v \<in> prompt_id ` set vs"
  by (metis image_eqI image_set map_prompt_id_set_flag)

lemma new_version_if_changed_single_current:
  assumes dist: "distinct (map v_id (versions db))" and inv: "single_current db"
  shows "single_current (snd (new_version_if_changed db pid data text))"
proof (cases "get_current_version db pid")
  case None
  then have zero: "count_current (versions db) pid = 0"
    by (simp add: get_current_version_def find_current_None)
  with inv have other: "\<forall>v \<in> set (versions db). prompt_id v \<noteq> pid"
    by (auto simp: single_current_iff)
  show ?thesis
    using None zero other inv
    by (auto simp: new_version_if_changed_def Let_def single_current_iff count_current_append
        count_current_Cons)
next
  case (Some c)
  then have c: "c \<in> set (versions db)" "prompt_id c = pid" "is_current c"
    by (auto simp: get_current_version_def dest: find_SomeD)
  show ?thesis
  proof (cases "prompt_text c = text")
    case True
    with Some inv show ?thesis by (simp add: new_version_if_changed_def)
  next
    case False
    let ?vs1 = "set_flag (v_id c) False (versions db)"
    have one: "count_current (versions db) pid = 1"
      using inv c by (auto simp: single_current_iff)
    have zero: "count_current ?vs1 pid = 0"
      using count_current_set_flag_False [OF dist c(1) c(3)] c(2) one by simp
    have same: "count_current ?vs1 p = count_current (versions db) p" if "p \<noteq> pid" for p
    proof (rule count_current_set_flag_other)
      show "\<forall>v \<in> set (versions db). v_id v = v_id c \<longrightarrow> prompt_id v \<noteq> p"
        using distinct_id_eq [OF dist _ c(1)] c(2) that by blast
    qed
    have "count_current (?vs1 @ [nv]) (prompt_id v) = 1"
      if v: "v \<in> set (?vs1 @ [nv])" and nv: "prompt_id nv = pid" "is_current nv" for v nv
    proof (cases "prompt_id v = pid")
      case True
      with zero nv show ?thesis by (simp add: count_current_append count_current_Cons)
    next
      case neq: False
      with v nv have "v \<in> set ?vs1" by auto
      then obtain w where w: "w \<in> set (versions db)" "prompt_id w = prompt_id v"
        using prompt_id_set_flag_mem by fastforce
      with inv have "count_current (versions db) (prompt_id v) = 1"
        by (auto simp: single_current_iff)
      with same [OF neq] neq nv show ?thesis
        by (simp add: count_current_append count_current_Cons)
    qed
    with Some False show ?thesis
      by (simp add: new_version_if_changed_def Let_def single_current_iff del: set_append)
  qed
qed

lemma p_id_update_metadata [simp]: "p_id (update_metadata data p) = p_id p"
  by (simp add: update_metadata_def Let_def split: option.splits)

lemma update_prompt_single_current:
  assumes dist: "distinct (map v_id (versions db))" and inv: "single_current db"
  shows "single_current (snd (update_prompt db uid pid data))"
proof (cases "find_owned_prompt db pid uid")
  case None
  with inv show ?thesis by (simp add: update_prompt_def)
next
  case (Some p)
  define db1 where "db1 = db\<lparr>prompts := map (\<lambda>q. if p_id q = pid then update_metadata data p else q) (prompts db)\<rparr>"
  have d1: "distinct (map v_id (versions db1))" and i1: "single_current db1"
    using dist inv by (simp_all add: db1_def single_current_iff)
  have "single_current (snd (new_version_if_changed db1 pid data t))" for t
    by (rule new_version_if_changed_single_current [OF d1 i1])
  with Some inv i1 show ?thesis
    by (auto simp: update_prompt_def Let_def db1_def [symmetric] split: option.splits prod.splits)
      (metis snd_conv)+
qed


lemma new_version_if_changed_wf:
  assumes wf: "db_wf db" and pid: "pid < next_prompt_id db"
  shows "db_wf (snd (new_version_if_changed db pid data t))"
proof (cases "get_current_version db pid")
  case None
  with wf pid show ?thesis
    by (fastforce simp: new_version_if_changed_def Let_def db_wf_def)
next
  case (Some c)
  have mem: "v_id v \<in> v_id ` set (versions db) \<and> prompt_id v \<in> prompt_id ` set (versions db)"
    if "v \<in> set (set_flag i b (versions db))" for v i b
    using that by (metis image_eqI image_set map_prompt_id_set_flag map_v_id_set_flag)
  show ?thesis
  proof (cases "prompt_text c = t")
    case True
    with Some wf show ?thesis by (simp add: new_version_if_changed_def)
  next
    case False
    with Some wf pid show ?thesis
      by (fastforce simp: new_version_if_changed_def Let_def db_wf_def dest: mem)
  qed
qed

lemma update_prompt_wf:
  assumes wf: "db_wf db"
  shows "db_wf (snd (update_prompt db uid pid data))"
proof (cases "find_owned_prompt db pid uid")
  case None
  with wf show ?thesis by (simp add: update_prompt_def)
next
  case (Some p)
  then have p: "p \<in> set (prompts db)" "p_id p = pid"
    by (auto simp: find_owned_prompt_def dest: find_SomeD)
  define db1 where "db1 = db\<lparr>prompts := map (\<lambda>q. if p_id q = pid then update_metadata data p else q) (prompts db)\<rparr>"
  have ids: "map p_id (prompts db1) = map p_id (prompts db)"
    using p by (simp add: db1_def comp_def cong: map_cong)
  have "set (map p_id (prompts db1)) = set (map p_id (prompts db))"
    using ids by simp
  then have "p_id ` set (prompts db1) = p_id ` set (prompts db)"
    by simp
  moreover have "\<forall>i \<in> p_id ` set (prompts db). i < next_prompt_id db"
    using wf by (auto simp: db_wf_def)
  ultimately have bound: "\<forall>q \<in> set (prompts db1). p_id q < next_prompt_id db"
    by (metis image_eqI)
  have w1: "db_wf db1"
    using wf ids bound by (simp add: db_wf_def) (simp add: db1_def)
  have pid: "pid < next_prompt_id db1"
    using wf p by (auto simp: db_wf_def db1_def)
  have "db_wf (snd (new_version_if_changed db1 pid data t))" for t
    by (rule new_version_if_changed_wf [OF w1 pid])
  with Some wf w1 show ?thesis
    by (auto simp: update_prompt_def Let_def db1_def [symmetric] split: option.splits prod.splits)
      (metis snd_conv)+
qed

lemma get_version_SomeD: "get_version db i = Some v \<Longrightarrow> v \<in> set (versions db) \<and> v_id v = i"
  by (auto simp: get_version_def dest: find_SomeD)

lemma get_prompt_SomeD: "get_prompt db i = Some p \<Longrightarrow> p \<in> set (prompts db) \<and> p_id p = i"
  by (auto simp: get_prompt_def dest: find_SomeD)

lemma set_current_versions_single_current:
  assumes dist: "distinct (map v_id vs)" and c: "c \<in> set vs" and inv: "\<forall>v \<in> set vs. count_current vs (prompt_id v) = 1"
  defines "vs1 \<equiv> map (\<lambda>v. if prompt_id v = prompt_id c then v\<lparr>is_current := False\<rparr> else v) vs"
  shows "\<forall>v \<in> set (set_flag (v_id c) True vs1). count_current (set_flag (v_id c) True vs1) (prompt_id v) = 1"
proof
  fix v assume v: "v \<in> set (set_flag (v_id c) True vs1)"
  let ?c1 = "c\<lparr>is_current := False\<rparr>"
  have ids: "map v_id vs1 = map v_id vs" and pids: "map prompt_id vs1 = map prompt_id vs"
    by (simp_all add: vs1_def comp_def cong: map_cong) 
  have d1: "distinct (map v_id vs1)" using dist ids by simp
  have c1: "?c1 \<in> set vs1" using c by (force simp: vs1_def)
  have zero: "count_current vs1 (prompt_id c) = 0"
    unfolding vs1_def by (rule count_current_clear_same)
  have one: "count_current (set_flag (v_id c) True vs1) (prompt_id c) = 1"
    using count_current_set_flag_True [OF d1 c1] zero by simp
  show "count_current (set_flag (v_id c) True vs1) (prompt_id v) = 1"
  proof (cases "prompt_id v = prompt_id c")
    case True
    with one show ?thesis by simp
  next
    case False
    have "prompt_id v \<in> set (map prompt_id vs)"
      using v pids by (metis image_eqI image_set map_prompt_id_set_flag)
    then obtain w where w: "w \<in> set vs" "prompt_id w = prompt_id v" by auto
    have "count_current (set_flag (v_id c) True vs1) (prompt_id v) = count_current vs1 (prompt_id v)"
    proof (rule count_current_set_flag_other)
      show "\<forall>x \<in> set vs1. v_id x = v_id c \<longrightarrow> prompt_id x \<noteq> prompt_id v"
        using distinct_id_eq [OF d1 _ c1] False by fastforce
    qed
    also have "\<dots> = count_current vs (prompt_id v)"
      unfolding vs1_def using False by (simp add: count_current_clear_other)
    also have "\<dots> = 1" using inv w by auto
    finally show ?thesis .
  qed
qed

lemma set_current_version_single_current:
  assumes dist: "distinct (map v_id (versions db))" and inv: "single_current db"
  shows "single_current (snd (set_current_version db uid vid))"
proof (cases "get_version db vid")
  case None
  with inv show ?thesis by (simp add: set_current_version_def)
next
  case (Some c)
  then have c: "c \<in> set (versions db)" "v_id c = vid" by (auto dest: get_version_SomeD)
  show ?thesis
  proof (cases "get_prompt db (prompt_id c)")
    case None
    with Some inv show ?thesis by (simp add: set_current_version_def)
  next
    case p: (Some p)
    then have pid: "p_id p = prompt_id c" by (auto dest: get_prompt_SomeD)
    from inv have inv': "\<forall>v \<in> set (versions db). count_current (versions db) (prompt_id v) = 1"
      by (simp add: single_current_iff)
    show ?thesis
      using Some p inv pid c(2) set_current_versions_single_current [OF dist c(1) inv']
      by (simp add: set_current_version_def Let_def single_current_iff)
  qed
qed


lemma db_wf_versions_cong:
  assumes ids: "map v_id vs' = map v_id (versions db)"
    and pids: "map prompt_id vs' = map prompt_id (versions db)"
    and wf: "db_wf db"
  shows "db_wf (db\<lparr>versions := vs'\<rparr>)"
proof -
  have a: "(\<forall>v \<in> set ws. v_id v < n) \<longleftrightarrow> (\<forall>i \<in> set (map v_id ws). i < n)"
    and b: "(\<forall>v \<in> set ws. prompt_id v < m) \<longleftrightarrow> (\<forall>i \<in> set (map prompt_id ws). i < m)"
    for ws :: "prompt_version list" and n m
    by simp_all
  have "\<forall>v \<in> set vs'. v_id v < next_version_id db"
    unfolding a ids using wf by (simp add: db_wf_def)
  moreover have "\<forall>v \<in> set vs'. prompt_id v < next_prompt_id db"
    unfolding b pids using wf by (simp add: db_wf_def)
  moreover have "distinct (map v_id vs')"
    unfolding ids using wf by (simp add: db_wf_def)
  ultimately show ?thesis
    using wf by (simp add: db_wf_def)
qed

lemma clear_flags_ids:
  "map v_id (map (\<lambda>v. if prompt_id v = q then v\<lparr>is_current := False\<rparr> else v) vs) = map v_id vs"
  "map prompt_id (map (\<lambda>v. if prompt_id v = q then v\<lparr>is_current := False\<rparr> else v) vs) = map prompt_id vs"
  by (induction vs) auto

lemma set_current_version_wf:
  assumes wf: "db_wf db"
  shows "db_wf (snd (set_current_version db uid vid))"
proof (cases "get_version db vid")
  case None
  with wf show ?thesis by (simp add: set_current_version_def)
next
  case (Some c)
  show ?thesis
  proof (cases "get_prompt db (prompt_id c)")
    case None
    with Some wf show ?thesis by (simp add: set_current_version_def)
  next
    case p: (Some p)
    let ?vs = "set_flag vid True (map (\<lambda>v. if prompt_id v = p_id p then v\<lparr>is_current := False\<rparr> else v) (versions db))"
    have "db_wf (db\<lparr>versions := ?vs\<rparr>)"
      by (rule db_wf_versions_cong [OF _ _ wf]) (simp_all add: clear_flags_ids)
    with Some p wf show ?thesis
      by (simp add: set_current_version_def Let_def)
  qed
qed

lemma delete_versions_single_current:
  assumes dist: "distinct (map v_id vs)" and c: "c \<in> set vs"
    and inv: "\<forall>v \<in> set vs. count_current vs (prompt_id v) = 1"
    and many: "1 < length (filter (\<lambda>v. prompt_id v = prompt_id c) vs)"
  defines "vs1 \<equiv> filter (\<lambda>v. v_id v \<noteq> v_id c) vs"
  defines "vs2 \<equiv> (if is_current c
                    then (case first_row (order_by_desc version_number
                                 (filter (\<lambda>v. prompt_id v = prompt_id c \<and> v_id v \<noteq> v_id c) vs1)) of
                            None \<Rightarrow> vs1
                          | Some new_current \<Rightarrow> set_flag (v_id new_current) True vs1)
                    else vs1)"
  shows "\<forall>v \<in> set vs2. count_current vs2 (prompt_id v) = 1"
proof (cases "is_current c")
  case False
  have "count_current vs1 p = count_current vs p" for p
    using count_current_remove_id [OF dist c, of p] False by (simp add: vs1_def)
  moreover have "set vs1 \<subseteq> set vs" by (auto simp: vs1_def)
  ultimately show ?thesis using inv False by (auto simp: vs2_def)
next
  case True
  have d1: "distinct (map v_id vs1)"
    using dist by (simp add: vs1_def distinct_map_filter)
  have sub: "set vs1 \<subseteq> set vs" by (auto simp: vs1_def)
  have "count_current vs (prompt_id c) = 1" using inv c by simp
  then have zero: "count_current vs1 (prompt_id c) = 0"
    using count_current_remove_id [OF dist c, of "prompt_id c"] True by (simp add: vs1_def)
  have same: "count_current vs1 p = count_current vs p" if "p \<noteq> prompt_id c" for p
    using count_current_remove_id [OF dist c, of p] that by (auto simp: vs1_def)
  let ?rest = "filter (\<lambda>v. prompt_id v = prompt_id c \<and> v_id v \<noteq> v_id c) vs1"
  have only: "v = c" if "v \<in> set vs" "v_id v = v_id c" for v
    using distinct_id_eq [OF dist that(1) c that(2)] .
  let ?mine = "filter (\<lambda>v. prompt_id v = prompt_id c) vs"
  have "distinct ?mine"
    using dist by (simp add: distinct_map)
  then have "card (set ?mine) = length ?mine"
    by (rule distinct_card)
  with many have big: "1 < card (set ?mine)" by simp
  have "\<not> set ?mine \<subseteq> {c}"
  proof
    assume "set ?mine \<subseteq> {c}"
    then have "card (set ?mine) \<le> card {c}" by (intro card_mono) auto
    with big show False by simp
  qed
  then obtain w where w: "w \<in> set vs" "prompt_id w = prompt_id c" "w \<noteq> c"
    by auto
  then have "w \<in> set ?rest" using only by (auto simp: vs1_def)
  then have "?rest \<noteq> []" by (metis empty_iff empty_set)
  then obtain nc where nc: "first_row (order_by_desc version_number ?rest) = Some nc"
    by (cases "first_row (order_by_desc version_number ?rest)")
       (auto simp: first_order_by_desc_None)
  then have ncm: "nc \<in> set vs1" "prompt_id nc = prompt_id c"
    using first_order_by_desc_Some [OF nc] by auto
  have ncn: "\<not> is_current nc"
    using zero ncm by (auto simp: count_current_zero_iff)
  have vs2: "vs2 = set_flag (v_id nc) True vs1"
    using True nc by (simp add: vs2_def)
  have one: "count_current vs2 (prompt_id c) = 1"
    using count_current_set_flag_True [OF d1 ncm(1) ncn] zero ncm(2) vs2 by simp
  show ?thesis
  proof
    fix v assume v: "v \<in> set vs2"
    show "count_current vs2 (prompt_id v) = 1"
    proof (cases "prompt_id v = prompt_id c")
      case True
      with one show ?thesis by simp
    next
      case neq: False
      have "prompt_id v \<in> set (map prompt_id vs1)"
        using v vs2 by (metis image_eqI image_set map_prompt_id_set_flag)
      then obtain u where u: "u \<in> set vs" "prompt_id u = prompt_id v"
        using sub by auto
      have "count_current vs2 (prompt_id v) = count_current vs1 (prompt_id v)"
        unfolding vs2
      proof (rule count_current_set_flag_other)
        show "\<forall>x \<in> set vs1. v_id x = v_id nc \<longrightarrow> prompt_id x \<noteq> prompt_id v"
          using distinct_id_eq [OF d1 _ ncm(1)] ncm(2) neq by fastforce
      qed
      also have "\<dots> = count_current vs (prompt_id v)" using same neq by simp
      also have "\<dots> = 1" using inv u by auto
      finally show ?thesis .
    qed
  qed
qed


lemma delete_version_single_current:
  assumes dist: "distinct (map v_id (versions db))" and inv: "single_current db"
  shows "single_current (snd (delete_version db uid vid))"
proof (cases "get_version db vid")
  case None
  with inv show ?thesis by (simp add: delete_version_def)
next
  case (Some c)
  then have c: "c \<in> set (versions db)" "v_id c = vid" by (auto dest: get_version_SomeD)
  show ?thesis
  proof (cases "get_prompt db (prompt_id c)")
    case None
    with Some inv show ?thesis by (simp add: delete_version_def)
  next
    case p: (Some p)
    then have pid: "p_id p = prompt_id c" by (auto dest: get_prompt_SomeD)
    from inv have inv': "\<forall>v \<in> set (versions db). count_current (versions db) (prompt_id v) = 1"
      by (simp add: single_current_def current_count_def)
    show ?thesis
    proof (cases "user_id p \<noteq> uid \<or> length (versions_of db (prompt_id c)) \<le> 1")
      case True
      with Some p pid inv show ?thesis by (auto simp: delete_version_def Let_def)
    next
      case False
      then have many: "1 < length (filter (\<lambda>v. prompt_id v = prompt_id c) (versions db))"
        by (simp add: versions_of_def)
      from False Some p pid delete_versions_single_current [OF dist c(1) inv' many]
      show ?thesis
        unfolding c(2) [symmetric]
        by (cases "is_current c")
           (simp_all add: delete_version_def Let_def single_current_def current_count_def
             del: filter_filter)
    qed
  qed
qed

lemma db_wf_filter:
  assumes "db_wf db"
  shows "db_wf (db\<lparr>prompts := filter P (prompts db), versions := filter Q (versions db),
                   evaluations := filter R (evaluations db)\<rparr>)"
  using assms by (simp add: db_wf_def distinct_map_filter)

lemma delete_version_wf:
  assumes wf: "db_wf db"
  shows "db_wf (snd (delete_version db uid vid))"
proof -
  let ?db1 = "db\<lparr>prompts := filter (\<lambda>p. True) (prompts db),
                  versions := filter (\<lambda>v. v_id v \<noteq> vid) (versions db),
                  evaluations := filter (\<lambda>e. version_id e \<noteq> vid) (evaluations db)\<rparr>"
  have w1: "db_wf ?db1" using wf by (rule db_wf_filter)
  have w1': "db_wf (db\<lparr>versions := filter (\<lambda>v. v_id v \<noteq> vid) (versions db),
                          evaluations := filter (\<lambda>e. version_id e \<noteq> vid) (evaluations db)\<rparr>)"
    using w1 by simp
  have w2: "db_wf (db\<lparr>versions := set_flag i True (filter (\<lambda>v. v_id v \<noteq> vid) (versions db)),
                         evaluations := filter (\<lambda>e. version_id e \<noteq> vid) (evaluations db)\<rparr>)" for i
  proof -
    have "db_wf (?db1\<lparr>versions := set_flag i True (versions ?db1)\<rparr>)"
      by (rule db_wf_versions_cong [OF _ _ w1]) simp_all
    moreover have "db\<lparr>evaluations := a, versions := b\<rparr> = db\<lparr>versions := b, evaluations := a\<rparr>" for a b
      by (cases db) simp
    ultimately show ?thesis by simp
  qed
  show ?thesis
    by (simp add: delete_version_def Let_def wf w1' w2 split: option.splits)
qed

lemma delete_prompt_single_current:
  assumes inv: "single_current db"
  shows "single_current (snd (delete_prompt db uid pid))"
  using inv
  by (auto simp: delete_prompt_def Let_def single_current_def current_count_def
      count_current_remove_prompt split: option.splits)

lemma delete_prompt_wf:
  assumes wf: "db_wf db"
  shows "db_wf (snd (delete_prompt db uid pid))"
  using db_wf_filter [OF wf] wf
  by (simp add: delete_prompt_def Let_def split: option.splits)

lemma apply_operation_invariants:
  assumes wf: "db_wf db" and inv: "single_current db"
  shows "db_wf (apply_operation db op) \<and> single_current (apply_operation db op)"
proof -
  have dist: "distinct (map v_id (versions db))"
    using wf by (simp add: db_wf_def)
  show ?thesis
  proof (cases op)
    case (CreatePrompt uid data)
    with wf inv show ?thesis
      by (simp add: create_prompt_wf create_prompt_single_current)
  next
    case (UpdatePrompt uid pid data)
    with wf inv dist show ?thesis
      by (simp add: update_prompt_wf update_prompt_single_current)
  next
    case (SetCurrentVersion uid vid)
    with wf inv dist show ?thesis
      by (simp add: set_current_version_wf set_current_version_single_current)
  next
    case (DeleteVersion uid vid)
    with wf inv dist show ?thesis
      by (simp add: delete_version_wf delete_version_single_current)
  next
    case (DeletePrompt uid pid)
    with wf inv show ?thesis
      by (simp add: delete_prompt_wf delete_prompt_single_current)
  qed
qed

section \<open>The single-current invariant\<close>

lemma run_invariants:
  "db_wf db \<Longrightarrow> single_current db \<Longrightarrow> db_wf (run db ops) \<and> single_current (run db ops)"
proof (induction ops arbitrary: db)
  case Nil
  then show ?case by simp
next
  case (Cons op ops)
  from apply_operation_invariants [OF Cons.prems, of op] Cons.IH show ?case by simp
qed

lemma empty_db_invariants: "db_wf empty_db \<and> single_current empty_db"
  by (simp add: db_wf_def single_current_def empty_db_def)

text \<open>
  Claim C1: for every prompt that has at least one version, exactly one of its versions is
  flagged current. The property holds in every state that a sequence of structural
  operations reaches from the empty store, and each single operation preserves it:
  creating a prompt with its initial version, updating the prompt text (which makes a new
  current version), promoting a version to current, and deleting a version, the current
  one included.
\<close>

theorem single_current_invariant:
  "single_current (run empty_db ops)
   \<and> (db_wf db \<and> single_current db \<longrightarrow>
        single_current (snd (create_prompt db uid cdata))
        \<and> single_current (snd (update_prompt db uid pid udata))
        \<and> single_current (snd (set_current_version db uid vid))
        \<and> single_current (snd (delete_version db uid vid)))"
proof -
  have "single_current (run empty_db ops)"
    using run_invariants empty_db_invariants by blast
  moreover have "single_current (snd (create_prompt db uid cdata))"
    "single_current (snd (update_prompt db uid pid udata))"
    "single_current (snd (set_current_version db uid vid))"
    "single_current (snd (delete_version db uid vid))"
    if "db_wf db" "single_current db"
    using that
    by (simp_all add: create_prompt_single_current update_prompt_single_current
        set_current_version_single_current delete_version_single_current db_wf_def)
  ultimately show ?thesis by blast
qed

lemma db_two_versions:
  "map (\<lambda>v. (v_id v, prompt_id v, version_number v, is_current v)) (versions db_two)
     = [(1, 1, 1, False), (2, 1, 2, True)]"
  by code_simp

lemma db_two_wf: "db_wf db_two"
  by code_simp

lemma db_two_single: "single_current db_two"
  by code_simp

lemma db_two_delete_current:
  "map (\<lambda>v. (v_id v, prompt_id v, version_number v, is_current v))
     (versions (snd (delete_version db_two 1 2))) = [(1, 1, 1, True)]"
  by code_simp

lemma db_two_promote:
  "map (\<lambda>v. (v_id v, prompt_id v, version_number v, is_current v))
     (versions (snd (set_current_version db_two 1 1))) = [(1, 1, 1, True), (2, 1, 2, False)]"
  by code_simp

text \<open>
  The invariant at work on the worked history: in the store with versions 1 and 2, the
  second current, deleting the current version makes version 1 current, and promoting
  version 1 clears the flag of version 2.
\<close>

theorem single_current_invariant_witness:
  "db_wf db_two \<and> single_current db_two
   \<and> map is_current (versions db_two) = [False, True]
   \<and> single_current (snd (delete_version db_two 1 2))
   \<and> map is_current (versions (snd (delete_version db_two 1 2))) = [True]
   \<and> single_current (snd (set_current_version db_two 1 1))
   \<and> map is_current (versions (snd (set_current_version db_two 1 1))) = [True, False]"
proof -
  have a: "map is_current (versions db_two) = [False, True]" by code_simp
  have b: "map is_current (versions (snd (delete_version db_two 1 2))) = [True]" by code_simp
  have c: "map is_current (versions (snd (set_current_version db_two 1 1))) = [True, False]" by code_simp
  show ?thesis
    using single_current_invariant [of "[]" db_two 1 ex_create 1 "ex_update []" 2]
      single_current_invariant [of "[]" db_two 1 ex_create 1 "ex_update []" 1]
      db_two_wf db_two_single a b c
    by simp
qed

section \<open>Version numbers\<close>

lemma filter_set_flag:
  "filter (\<lambda>v. prompt_id v = pid) (set_flag i b vs) = set_flag i b (filter (\<lambda>v. prompt_id v = pid) vs)"
  by (induction vs) (auto simp: set_flag_def)

lemma latest_number:
  assumes "first_row (order_by_desc version_number xs) = Some l"
  shows "version_number l = Max (version_number ` set xs)"
proof -
  from first_order_by_desc_Some [OF assms]
  have "l \<in> set xs" and "\<forall>x \<in> set xs. version_number x \<le> version_number l" by auto
  then show ?thesis by (intro Max_eqI [symmetric]) auto
qed

lemma next_number_latest:
  "(case first_row (order_by_desc version_number xs) of None \<Rightarrow> 1 | Some l \<Rightarrow> version_number l + 1)
     = next_number xs"
proof (cases "first_row (order_by_desc version_number xs)")
  case None
  then have "xs = []" by (simp add: first_order_by_desc_None)
  then show ?thesis by (simp add: next_number_def order_by_desc_def)
next
  case (Some l)
  then have "xs \<noteq> []" using first_order_by_desc_None [of version_number xs] by auto
  with Some latest_number [OF Some] show ?thesis by (simp add: next_number_def)
qed

lemma next_number_greater: "x \<in> set xs \<Longrightarrow> version_number x < next_number xs"
  by (auto simp: next_number_def less_Suc_eq_le)

lemma next_number_cong: "map version_number xs = map version_number ys \<Longrightarrow> next_number xs = next_number ys"
proof -
  assume a: "map version_number xs = map version_number ys"
  then have "version_number ` set xs = version_number ` set ys"
    by (metis image_set)
  moreover from a have "xs = [] \<longleftrightarrow> ys = []" by (metis map_is_Nil_conv)
  ultimately show ?thesis by (simp add: next_number_def)
qed

lemma new_version_if_changed_number:
  assumes "new_version_if_changed db pid data t = (Some nv, db')"
  shows "version_number nv = next_number (versions_of db pid)
         \<and> prompt_id nv = pid \<and> is_current nv \<and> prompt_text nv = t
         \<and> map version_number (versions db') = map version_number (versions db) @ [version_number nv]
         \<and> map prompt_id (versions db') = map prompt_id (versions db) @ [pid]"
proof (cases "get_current_version db pid")
  case None
  with assms show ?thesis
    by (auto simp: new_version_if_changed_def Let_def get_latest_version_def next_number_latest)
next
  case (Some c)
  have "map version_number (versions_of (db\<lparr>versions := set_flag (v_id c) False (versions db)\<rparr>) pid)
          = map version_number (versions_of db pid)"
    by (simp add: versions_of_def filter_set_flag)
  then have "next_number (versions_of (db\<lparr>versions := set_flag (v_id c) False (versions db)\<rparr>) pid)
          = next_number (versions_of db pid)"
    by (rule next_number_cong)
  with Some assms show ?thesis
    by (auto simp: new_version_if_changed_def Let_def get_latest_version_def next_number_latest
        split: if_splits)
qed

lemma update_prompt_new_version:
  assumes "update_prompt db uid pid data = (Inr r, db')" and "upd_new_version r = Some nv"
  obtains p t where "find_owned_prompt db pid uid = Some p"
    and "new_version_if_changed
           (db\<lparr>prompts := map (\<lambda>q. if p_id q = pid then update_metadata data p else q) (prompts db)\<rparr>)
           pid data t = (Some nv, db')"
  using assms
  by (auto simp: update_prompt_def Let_def split: option.splits if_splits prod.splits)

text \<open>
  Claim C2, amended: whenever an update creates a version, its number is the maximum
  version number among the versions the prompt has at that moment plus one (1 when it has
  none); it is therefore greater than the number of every version of the prompt that
  exists at that moment, and the numbers of the existing versions are left as they are.
\<close>

theorem new_version_number_max_plus_one:
  assumes "update_prompt db uid pid data = (Inr r, db')" and "upd_new_version r = Some nv"
  shows "version_number nv = (if versions_of db pid = [] then 1
                              else Max (version_number ` set (versions_of db pid)) + 1)
         \<and> (\<forall>v \<in> set (versions db). prompt_id v = pid \<longrightarrow> version_number v < version_number nv)
         \<and> map version_number (versions db') = map version_number (versions db) @ [version_number nv]"
proof -
  from assms obtain p t where
    nvc: "new_version_if_changed
           (db\<lparr>prompts := map (\<lambda>q. if p_id q = pid then update_metadata data p else q) (prompts db)\<rparr>)
           pid data t = (Some nv, db')"
    by (rule update_prompt_new_version)
  define db1 where "db1 = db\<lparr>prompts := map (\<lambda>q. if p_id q = pid then update_metadata data p else q) (prompts db)\<rparr>"
  have db1: "versions db1 = versions db" "new_version_if_changed db1 pid data t = (Some nv, db')"
    using nvc by (simp_all add: db1_def)
  have vo: "versions_of db1 pid = versions_of db pid"
    using db1(1) by (simp add: versions_of_def)
  from new_version_if_changed_number [OF db1(2)] vo db1(1)
  have n: "version_number nv = next_number (versions_of db pid)"
    and m: "map version_number (versions db') = map version_number (versions db) @ [version_number nv]"
    by simp_all
  have "version_number v < version_number nv" if "v \<in> set (versions db)" "prompt_id v = pid" for v
    using that n next_number_greater [of v "versions_of db pid"] by (simp add: versions_of_def)
  with n m show ?thesis by (simp add: next_number_def)
qed


text \<open>
  Claim C2, as stated: a version number, once assigned, is never reused, even after a
  version is deleted. In the worked history version 2 (row 2) is created and deleted, and
  the next update assigns the number 2 again, to row 3.
\<close>

theorem version_number_reuse_counterexample:
  "map v_id (versions db_two) = [1, 2]
   \<and> map version_number (versions db_two) = [1, 2]
   \<and> map v_id (versions db_after_delete) = [1]
   \<and> map version_number (versions db_after_delete) = [1]
   \<and> map v_id (versions db_reused) = [1, 3]
   \<and> map version_number (versions db_reused) = [1, 2]"
  by code_simp

lemma db_one_update:
  "update_prompt db_one 1 1 (ex_update fib_text)
     = (Inr \<lparr>upd_prompt = prompt_to_dict db_two ex_prompt,
              upd_new_version = Some \<lparr>v_id = 2, prompt_id = 1, version_number = 2,
                 prompt_text = fib_text,
                 change_notes = ''Version 2'', is_current = True\<rparr>\<rparr>, db_two)"
  by code_simp

text \<open>The first update of the worked history: the prompt has version 1, the new version is 2.\<close>

theorem new_version_number_max_plus_one_witness:
  "update_prompt db_one 1 1 (ex_update fib_text)
     = (Inr \<lparr>upd_prompt = prompt_to_dict db_two ex_prompt,
              upd_new_version = Some \<lparr>v_id = 2, prompt_id = 1, version_number = 2,
                 prompt_text = fib_text,
                 change_notes = ''Version 2'', is_current = True\<rparr>\<rparr>, db_two)
   \<and> map version_number (versions_of db_one 1) = [1]
   \<and> map version_number (versions db_two) = [1, 2]"
proof -
  have a: "map version_number (versions_of db_one 1) = [1]" by code_simp
  have b: "map version_number (versions db_two) = [1, 2]" by code_simp
  from new_version_number_max_plus_one [OF db_one_update] a b db_one_update
  show ?thesis by simp
qed

section \<open>Updates without a change, refused deletions, evaluations\<close>

lemma new_version_if_changed_same_text:
  assumes "get_current_version db pid = Some c" and "prompt_text c = t"
  shows "new_version_if_changed db pid data t = (None, db)"
  using assms by (simp add: new_version_if_changed_def)

text \<open>
  Claim C5: for a prompt with a current version, an update by its owner whose new text,
  after trimming, equals the current version's text creates no new version. The versions
  (and with them the current version's flag and text) and the evaluations are unchanged,
  the response carries no new version, and it returns the existing current version.
\<close>

theorem update_same_text_no_new_version:
  assumes owner: "find_owned_prompt db pid uid = Some p"
    and cur: "get_current_version db pid = Some c"
    and tx: "ud_prompt_text data = Some t"
    and same: "strip t = prompt_text c"
  shows "versions (snd (update_prompt db uid pid data)) = versions db
         \<and> evaluations (snd (update_prompt db uid pid data)) = evaluations db
         \<and> get_current_version (snd (update_prompt db uid pid data)) pid = Some c
         \<and> (\<exists>r. fst (update_prompt db uid pid data) = Inr r
                  \<and> upd_new_version r = None
                  \<and> current_version (upd_prompt r) = Some c
                  \<and> view_versions (upd_prompt r) = order_by_desc version_number (versions_of db pid))"
proof -
  define db1 where "db1 = db\<lparr>prompts := map (\<lambda>q. if p_id q = pid then update_metadata data p else q) (prompts db)\<rparr>"
  have v1: "versions db1 = versions db" "evaluations db1 = evaluations db"
    by (simp_all add: db1_def)
  have c1: "get_current_version db1 pid = Some c"
    using cur v1 by (simp add: get_current_version_def)
  have pid: "p_id p = pid"
    using owner by (auto simp: find_owned_prompt_def dest: find_SomeD)
  have nv: "new_version_if_changed db1 pid data (strip t) = (None, db1)"
    by (rule new_version_if_changed_same_text [OF c1 same [symmetric]])
  have res: "update_prompt db uid pid data
      = (Inr \<lparr>upd_prompt = prompt_to_dict db1 (update_metadata data p), upd_new_version = None\<rparr>, db1)"
    using owner tx by (simp add: update_prompt_def Let_def db1_def [symmetric] nv)
  show ?thesis
    using v1 c1 pid
    by (simp add: res prompt_to_dict_def get_current_version_def versions_of_def)
qed

text \<open>
  Claim C6: when the prompt of a version has exactly one version, deleting that version
  fails and leaves the store as it was, the version included. For the prompt's owner the
  failure is \<open>InvalidOperation\<close>; any other caller is refused earlier, with \<open>AccessDenied\<close>.
\<close>

theorem delete_only_version_fails:
  assumes ver: "get_version db vid = Some v"
    and pr: "get_prompt db (prompt_id v) = Some p"
    and one: "length (versions_of db (prompt_id v)) = 1"
  shows "(user_id p = uid \<longrightarrow> delete_version db uid vid = (Inl InvalidOperation, db))
         \<and> (user_id p \<noteq> uid \<longrightarrow> delete_version db uid vid = (Inl AccessDenied, db))
         \<and> snd (delete_version db uid vid) = db
         \<and> get_version (snd (delete_version db uid vid)) vid = Some v"
proof -
  have "p_id p = prompt_id v"
    using pr by (auto dest: get_prompt_SomeD)
  with ver pr one show ?thesis
    by (simp add: delete_version_def Let_def)
qed

text \<open>
  Claim C7: evaluating a version that does not exist fails with \<open>NotFound\<close> and leaves the
  store unchanged. Evaluating an existing version of a prompt the caller owns appends
  exactly one evaluation record, tied to that version and carrying a fresh identifier, and
  leaves every stored record as it was.
\<close>

theorem evaluate_version_appends_one:
  "(get_version db vid = None \<longrightarrow> evaluate_version libs db uid vid now = (Inl NotFound, db))
   \<and> (get_version db vid = Some v \<and> get_prompt db (prompt_id v) = Some p \<and> user_id p = uid \<longrightarrow>
        (\<exists>e details. evaluate_version libs db uid vid now
             = (Inr \<lparr>evr_evaluation = e, evr_details = details\<rparr>,
                db\<lparr>evaluations := evaluations db @ [e],
                   next_evaluation_id := Suc (next_evaluation_id db)\<rparr>)
           \<and> version_id e = vid \<and> e_id e = next_evaluation_id db \<and> evaluated_at e = now
           \<and> (db_wf db \<longrightarrow> e_id e \<notin> e_id ` set (evaluations db))))"
proof -
  have "v_id v = vid" if "get_version db vid = Some v"
    using that by (auto dest: get_version_SomeD)
  moreover have "next_evaluation_id db \<notin> e_id ` set (evaluations db)" if "db_wf db"
    using that by (auto simp: db_wf_def)
  ultimately show ?thesis
    by (auto simp: evaluate_version_def Let_def)
qed


text \<open>
  In the worked history: updating with the text of version 2 surrounded by blanks, and
  with the same text surrounded by a no-break space, blanks, a tab and a next-line
  character, all of which \<open>strip\<close> removes.
\<close>

theorem update_same_text_no_new_version_witness:
  "find_owned_prompt db_two 1 1 = Some ex_prompt
   \<and> get_current_version db_two 1 = Some ex_version2
   \<and> strip (''  '' @ fib_text @ ''  '') = prompt_text ex_version2
   \<and> versions (snd (update_prompt db_two 1 1
          (ex_update (''  '' @ fib_text @ ''  '')))) = versions db_two
   \<and> get_current_version (snd (update_prompt db_two 1 1
          (ex_update (''  '' @ fib_text @ ''  '')))) 1 = Some ex_version2
   \<and> padded_text \<noteq> fib_text
   \<and> strip padded_text = prompt_text ex_version2
   \<and> versions (snd (update_prompt db_two 1 1 (ex_update padded_text))) = versions db_two
   \<and> get_current_version (snd (update_prompt db_two 1 1 (ex_update padded_text))) 1
       = Some ex_version2"
proof -
  have a: "find_owned_prompt db_two 1 1 = Some ex_prompt" by code_simp
  have b: "get_current_version db_two 1 = Some ex_version2" by code_simp
  have c: "ud_prompt_text (ex_update t) = Some t" for t by (simp add: ex_update_def)
  have d: "strip (''  '' @ fib_text @ ''  '') = prompt_text ex_version2"
    by code_simp
  have e: "strip padded_text = prompt_text ex_version2"
    by code_simp
  have f: "padded_text \<noteq> fib_text"
    by (simp add: padded_text_def)
  from update_same_text_no_new_version [OF a b c d] update_same_text_no_new_version [OF a b c e]
    a b d e f
  show ?thesis by simp
qed

text \<open>
  In the worked history: after the prompt is created, version 1 is its only version.
\<close>

theorem delete_only_version_fails_witness:
  "get_version db_one 1 = Some ex_version1
   \<and> get_prompt db_one (prompt_id ex_version1) = Some ex_prompt
   \<and> length (versions_of db_one (prompt_id ex_version1)) = 1
   \<and> delete_version db_one 1 1 = (Inl InvalidOperation, db_one)
   \<and> delete_version db_one 7 1 = (Inl AccessDenied, db_one)"
proof -
  have a: "get_version db_one 1 = Some ex_version1" by code_simp
  have b: "get_prompt db_one (prompt_id ex_version1) = Some ex_prompt" by code_simp
  have c: "length (versions_of db_one (prompt_id ex_version1)) = 1" by code_simp
  from delete_only_version_fails [OF a b c, of 1] delete_only_version_fails [OF a b c, of 7] a b c
  show ?thesis by (simp add: ex_prompt_def)
qed

lemma db_two_eq:
  "db_two = \<lparr>prompts = [ex_prompt], versions = [ex_version1\<lparr>is_current := False\<rparr>, ex_version2],
             evaluations = [], next_prompt_id = 2, next_version_id = 3, next_evaluation_id = 1\<rparr>"
  by code_simp

lemma fib_clarity: "cl_score (calculate_clarity_score fib_text) = 100"
  "cl_notes (calculate_clarity_score fib_text) = []"
  by code_simp+

lemma fib_relevance:
  "rel_score (calculate_relevance_score fib_text (Some ''generation'') (Some ''coding'')) = 68"
  "rel_notes (calculate_relevance_score fib_text (Some ''generation'') (Some ''coding''))
     = [''Matches coding: function, python'', ''Good generation indicators'']"
  by code_simp+

lemma fib_length: "len_score (calculate_length_score fib_text) = 62"
  "len_notes (calculate_length_score fib_text) = [''Could be more detailed (9 words)'']"
  by code_simp+

lemma round2_fib: "round2 100 = 100" "round2 68 = 68" "round2 62 = 62" "round2 (398 / 5) = 398 / 5"
  "round2 0 = 0"
  by (simp_all add: round2_def)

lemma fib_result:
  "res_clarity_score (evaluate_prompt failing_libs fib_text (Some ''generation'') (Some ''coding'')) = 100"
  "res_relevance_score (evaluate_prompt failing_libs fib_text (Some ''generation'') (Some ''coding'')) = 68"
  "res_length_score (evaluate_prompt failing_libs fib_text (Some ''generation'') (Some ''coding'')) = 62"
  "res_final_score (evaluate_prompt failing_libs fib_text (Some ''generation'') (Some ''coding'')) = 398 / 5"
  "res_evaluation_notes (evaluate_prompt failing_libs fib_text (Some ''generation'') (Some ''coding''))
     = ''Matches coding: function, python | Good generation indicators | Could be more detailed (9 words)''"
  by (simp_all add: evaluate_prompt_def evaluate_def Let_def fib_clarity fib_relevance fib_length
      calculate_readability_def analyze_sentiment_def failing_libs_def round2_fib evaluator_def
      init_weights_def DEFAULT_WEIGHTS_def)

lemma db_evaluated_once_eq:
  "db_evaluated_once = db_two\<lparr>evaluations := [ex_evaluation 1 10], next_evaluation_id := 2\<rparr>"
  by (simp add: db_evaluated_once_def evaluate_version_def db_two_eq get_version_def
      get_prompt_def ex_version1_def ex_version2_def ex_prompt_def Let_def fib_result
      ex_evaluation_def)

lemma db_evaluated_twice_eq:
  "db_evaluated_twice = db_two\<lparr>evaluations := [ex_evaluation 1 10, ex_evaluation 2 20],
                               next_evaluation_id := 3\<rparr>"
  by (simp add: db_evaluated_twice_def db_evaluated_once_eq evaluate_version_def db_two_eq
      get_version_def get_prompt_def ex_version1_def ex_version2_def ex_prompt_def Let_def
      fib_result ex_evaluation_def)

text \<open>
  In the worked history: version 2, already evaluated once, is evaluated again, and the
  store holds both records; evaluating the missing version 99 is refused.
\<close>

theorem evaluate_version_appends_one_witness:
  "get_version db_evaluated_once 99 = None
   \<and> evaluate_version failing_libs db_evaluated_once 1 99 20 = (Inl NotFound, db_evaluated_once)
   \<and> get_version db_evaluated_once 2 = Some ex_version2
   \<and> get_prompt db_evaluated_once (prompt_id ex_version2) = Some ex_prompt
   \<and> evaluations db_evaluated_once = [ex_evaluation 1 10]
   \<and> evaluations (snd (evaluate_version failing_libs db_evaluated_once 1 2 20))
       = [ex_evaluation 1 10, ex_evaluation 2 20]"
proof -
  have a: "get_version db_evaluated_once 99 = None"
    by (simp add: db_evaluated_once_eq db_two_eq get_version_def ex_version1_def ex_version2_def)
  have b: "get_version db_evaluated_once 2 = Some ex_version2"
    by (simp add: db_evaluated_once_eq db_two_eq get_version_def ex_version1_def ex_version2_def)
  have c: "get_prompt db_evaluated_once (prompt_id ex_version2) = Some ex_prompt"
    by (simp add: db_evaluated_once_eq db_two_eq get_prompt_def ex_version2_def ex_prompt_def)
  have d: "evaluations db_evaluated_once = [ex_evaluation 1 10]"
    by (simp add: db_evaluated_once_eq)
  have e: "evaluations (snd (evaluate_version failing_libs db_evaluated_once 1 2 20))
       = [ex_evaluation 1 10, ex_evaluation 2 20]"
    using db_evaluated_twice_eq by (simp add: db_evaluated_twice_def)
  from evaluate_version_appends_one [of db_evaluated_once 99 failing_libs 1 20 ex_version2 ex_prompt]
    evaluate_version_appends_one [of db_evaluated_once 2 failing_libs 1 20 ex_version2 ex_prompt]
    a b c d e
  show ?thesis by simp
qed

section \<open>The scoring engine: fallback and determinism\<close>

lemma clamp_score_bounds: "0 \<le> clamp_score x \<and> clamp_score x \<le> 100"
  by (simp add: clamp_score_def)

lemma round2_bounds:
  assumes "0 \<le> x" and "x \<le> 100"
  shows "0 \<le> round2 x \<and> round2 x \<le> 100"
proof -
  define y where "y = x * 100"
  define f where "f = \<lfloor>y\<rfloor>"
  have y: "0 \<le> y" "y \<le> 10000" using assms by (simp_all add: y_def)
  have f0: "0 \<le> f" using y(1) by (simp add: f_def)
  have fy: "of_int f \<le> y" by (simp add: f_def)
  have f1: "f \<le> 10000" using y(2) by (simp add: f_def floor_le_iff)
  have up: "f + 1 \<le> 10000" if "1 / 2 \<le> y - of_int f"
  proof -
    from that y(2) have "of_int f < (10000 :: rat)" by linarith
    then have "f < 10000" by (metis of_int_less_iff of_int_numeral)
    then show ?thesis by simp
  qed
  have a: "0 \<le> (of_int f :: rat) / 100 \<and> (of_int f :: rat) / 100 \<le> 100"
    using f0 f1 by simp
  have b: "0 \<le> (of_int (f + 1) :: rat) / 100 \<and> (of_int (f + 1) :: rat) / 100 \<le> 100"
    if "1 / 2 \<le> y - of_int f"
  proof -
    from up [OF that] have "(of_int (f + 1) :: rat) \<le> of_int 10000"
      by (subst of_int_le_iff)
    with f0 show ?thesis by simp
  qed
  show ?thesis
    unfolding round2_def Let_def y_def [symmetric] f_def [symmetric]
    using a b by (auto simp: not_less)
qed

lemma calculate_readability_fallback:
  assumes "textstat_flesch_reading_ease libs t = None \<or> textstat_text_standard libs t = None"
  shows "calculate_readability libs t
           = \<lparr>flesch_reading_ease = 50, grade_level = ''N/A'', rd_notes = []\<rparr>"
  using assms by (auto simp: calculate_readability_def split: option.splits)

lemma clarity_bounds:
  "0 \<le> cl_score (calculate_clarity_score t) \<and> cl_score (calculate_clarity_score t) \<le> 100"
  by (simp add: calculate_clarity_score_def Let_def split_def clamp_score_bounds)

lemma relevance_bounds:
  "0 \<le> rel_score (calculate_relevance_score t tt d) \<and> rel_score (calculate_relevance_score t tt d) \<le> 100"
  by (simp add: calculate_relevance_score_def Let_def split_def clamp_score_bounds)

lemma length_bounds:
  "0 \<le> len_score (calculate_length_score t) \<and> len_score (calculate_length_score t) \<le> 100"
  by (simp add: calculate_length_score_def Let_def split_def clamp_score_bounds)

lemma evaluate_score_bounds:
  "0 \<le> res_clarity_score (evaluate libs w t tt d) \<and> res_clarity_score (evaluate libs w t tt d) \<le> 100"
  "0 \<le> res_relevance_score (evaluate libs w t tt d) \<and> res_relevance_score (evaluate libs w t tt d) \<le> 100"
  "0 \<le> res_length_score (evaluate libs w t tt d) \<and> res_length_score (evaluate libs w t tt d) \<le> 100"
  using round2_bounds clarity_bounds relevance_bounds length_bounds
  by (simp_all add: evaluate_def Let_def)

lemma evaluate_prompt_final_bounds:
  "0 \<le> res_final_score (evaluate_prompt libs t tt d) \<and> res_final_score (evaluate_prompt libs t tt d) \<le> 100"
proof -
  define c where "c = cl_score (calculate_clarity_score t)"
  define r where "r = rel_score (calculate_relevance_score t tt d)"
  define l where "l = len_score (calculate_length_score t)"
  have b: "0 \<le> c" "c \<le> 100" "0 \<le> r" "r \<le> 100" "0 \<le> l" "l \<le> 100"
    using clarity_bounds [of t] relevance_bounds [of t tt d] length_bounds [of t]
    by (simp_all add: c_def r_def l_def)
  have "0 \<le> c * (4 / 10) + r * (4 / 10) + l * (2 / 10)"
    using b by simp
  moreover have "c * (4 / 10) + r * (4 / 10) + l * (2 / 10) \<le> 100"
    using b by simp
  ultimately have "0 \<le> round2 (c * (4 / 10) + r * (4 / 10) + l * (2 / 10))
      \<and> round2 (c * (4 / 10) + r * (4 / 10) + l * (2 / 10)) \<le> 100"
    by (rule round2_bounds)
  then show ?thesis
    by (simp add: evaluate_prompt_def evaluate_def Let_def evaluator_def init_weights_def
        DEFAULT_WEIGHTS_def c_def r_def l_def)
qed


text \<open>
  Claim C8: scoring a text never fails. When a readability call raises, the engine falls
  back to the ease value 50.0 and the grade "N/A", which adds no note, and the result is
  still complete: clarity, relevance, length and final score all lie between 0 and 100 and
  the notes are not empty. The readability calls are the only ones the engine guards; the
  sentiment call is taken to return a value for every text.
\<close>

theorem readability_fallback:
  "(textstat_flesch_reading_ease libs t = None \<or> textstat_text_standard libs t = None \<longrightarrow>
      details_readability (evaluate_prompt libs t tt d)
        = \<lparr>flesch_reading_ease = 50, grade_level = ''N/A'', rd_notes = []\<rparr>)
   \<and> 0 \<le> res_clarity_score (evaluate_prompt libs t tt d)
   \<and> res_clarity_score (evaluate_prompt libs t tt d) \<le> 100
   \<and> 0 \<le> res_relevance_score (evaluate_prompt libs t tt d)
   \<and> res_relevance_score (evaluate_prompt libs t tt d) \<le> 100
   \<and> 0 \<le> res_length_score (evaluate_prompt libs t tt d)
   \<and> res_length_score (evaluate_prompt libs t tt d) \<le> 100
   \<and> 0 \<le> res_final_score (evaluate_prompt libs t tt d)
   \<and> res_final_score (evaluate_prompt libs t tt d) \<le> 100
   \<and> res_evaluation_notes (evaluate_prompt libs t tt d) \<noteq> []"
proof -
  have rd: "details_readability (evaluate_prompt libs t tt d) = calculate_readability libs t"
    by (simp add: evaluate_prompt_def evaluate_def Let_def)
  have ln: "len_notes (calculate_length_score t) \<noteq> []"
    by (simp add: calculate_length_score_def Let_def split_def)
  have jn: "join sep xs \<noteq> []" if "x \<in> set xs" "x \<noteq> []" for sep x and xs :: "string list"
    using that by (induction sep xs rule: join.induct) auto
  have le: "x \<noteq> []" if "x \<in> set (len_notes (calculate_length_score t))" for x
    using that by (auto simp: calculate_length_score_def Let_def split: if_splits)
  obtain x where x: "x \<in> set (len_notes (calculate_length_score t))"
    using ln by (cases "len_notes (calculate_length_score t)") auto
  have nts: "res_evaluation_notes (evaluate_prompt libs t tt d) \<noteq> []"
    using jn [of x _ "'' | ''"] x le [OF x]
    by (simp add: evaluate_prompt_def evaluate_def Let_def)
  show ?thesis
    using evaluate_score_bounds [of libs evaluator t tt d] evaluate_prompt_final_bounds [of libs t tt d]
      calculate_readability_fallback [of libs t] nts
    by (simp add: rd) (simp add: evaluate_prompt_def)
qed

lemma symbols_clarity: "cl_score (calculate_clarity_score symbols_text) = 90"
  by code_simp

lemma symbols_relevance:
  "rel_score (calculate_relevance_score symbols_text (Some ''generation'') (Some ''coding'')) = 25"
  by code_simp

lemma symbols_length: "len_score (calculate_length_score symbols_text) = 12"
  by code_simp

text \<open>
  A text of symbols only, with readability calls that raise.
\<close>

theorem readability_fallback_witness:
  "textstat_flesch_reading_ease failing_libs symbols_text = None
   \<and> details_readability (evaluate_prompt failing_libs symbols_text (Some ''generation'') (Some ''coding''))
        = \<lparr>flesch_reading_ease = 50, grade_level = ''N/A'', rd_notes = []\<rparr>
   \<and> res_clarity_score (evaluate_prompt failing_libs symbols_text (Some ''generation'') (Some ''coding'')) = 90
   \<and> res_relevance_score (evaluate_prompt failing_libs symbols_text (Some ''generation'') (Some ''coding'')) = 25
   \<and> res_length_score (evaluate_prompt failing_libs symbols_text (Some ''generation'') (Some ''coding'')) = 12
   \<and> res_final_score (evaluate_prompt failing_libs symbols_text (Some ''generation'') (Some ''coding'')) = 242 / 5"
proof -
  have a: "textstat_flesch_reading_ease failing_libs symbols_text = None"
    by (simp add: failing_libs_def)
  have r: "round2 90 = 90" "round2 25 = 25" "round2 12 = 12" "round2 (242 / 5) = 242 / 5"
    by (simp_all add: round2_def)
  have b: "res_clarity_score (evaluate_prompt failing_libs symbols_text (Some ''generation'') (Some ''coding'')) = 90"
    "res_relevance_score (evaluate_prompt failing_libs symbols_text (Some ''generation'') (Some ''coding'')) = 25"
    "res_length_score (evaluate_prompt failing_libs symbols_text (Some ''generation'') (Some ''coding'')) = 12"
    "res_final_score (evaluate_prompt failing_libs symbols_text (Some ''generation'') (Some ''coding'')) = 242 / 5"
    by (simp_all add: evaluate_prompt_def evaluate_def Let_def symbols_clarity symbols_relevance
        symbols_length r evaluator_def init_weights_def DEFAULT_WEIGHTS_def)
  from readability_fallback [of failing_libs symbols_text "Some ''generation''" "Some ''coding''"] a b
  show ?thesis by simp
qed

text \<open>
  Claim C9: scoring is deterministic. The engine keeps no state, so the only thing besides
  its arguments that a call can see is what the two text libraries return. The four scores
  do not depend on the libraries at all; and two calls with identical arguments on which
  the libraries answer alike for the text give identical results, notes included.
\<close>

theorem evaluate_deterministic:
  "res_clarity_score (evaluate libs1 w t tt d) = res_clarity_score (evaluate libs2 w t tt d)
   \<and> res_relevance_score (evaluate libs1 w t tt d) = res_relevance_score (evaluate libs2 w t tt d)
   \<and> res_length_score (evaluate libs1 w t tt d) = res_length_score (evaluate libs2 w t tt d)
   \<and> res_final_score (evaluate libs1 w t tt d) = res_final_score (evaluate libs2 w t tt d)
   \<and> (textstat_flesch_reading_ease libs1 t = textstat_flesch_reading_ease libs2 t
        \<and> textstat_text_standard libs1 t = textstat_text_standard libs2 t
        \<and> textblob_sentiment libs1 t = textblob_sentiment libs2 t \<longrightarrow>
        res_evaluation_notes (evaluate libs1 w t tt d) = res_evaluation_notes (evaluate libs2 w t tt d)
        \<and> evaluate libs1 w t tt d = evaluate libs2 w t tt d)"
proof -
  have scores:
    "res_clarity_score (evaluate libs1 w t tt d) = res_clarity_score (evaluate libs2 w t tt d)"
    "res_relevance_score (evaluate libs1 w t tt d) = res_relevance_score (evaluate libs2 w t tt d)"
    "res_length_score (evaluate libs1 w t tt d) = res_length_score (evaluate libs2 w t tt d)"
    "res_final_score (evaluate libs1 w t tt d) = res_final_score (evaluate libs2 w t tt d)"
    by (simp_all add: evaluate_def Let_def)
  have "evaluate libs1 w t tt d = evaluate libs2 w t tt d"
    if "textstat_flesch_reading_ease libs1 t = textstat_flesch_reading_ease libs2 t"
      and "textstat_text_standard libs1 t = textstat_text_standard libs2 t"
      and "textblob_sentiment libs1 t = textblob_sentiment libs2 t"
  proof -
    have "calculate_readability libs1 t = calculate_readability libs2 t"
      unfolding calculate_readability_def that(1) that(2) by (rule refl)
    moreover have "analyze_sentiment libs1 t = analyze_sentiment libs2 t"
      unfolding analyze_sentiment_def that(3) by (rule refl)
    ultimately show ?thesis by (simp add: evaluate_def)
  qed
  with scores show ?thesis by auto
qed

text \<open>
  Two different library behaviours that agree on the text of version 2.
\<close>

theorem evaluate_deterministic_witness:
  "textstat_flesch_reading_ease failing_libs fib_text = textstat_flesch_reading_ease other_libs fib_text
   \<and> textstat_text_standard failing_libs fib_text = textstat_text_standard other_libs fib_text
   \<and> textblob_sentiment failing_libs fib_text = textblob_sentiment other_libs fib_text
   \<and> failing_libs \<noteq> other_libs
   \<and> evaluate failing_libs evaluator fib_text (Some ''generation'') (Some ''coding'')
       = evaluate other_libs evaluator fib_text (Some ''generation'') (Some ''coding'')"
proof -
  have a: "textstat_flesch_reading_ease failing_libs fib_text = textstat_flesch_reading_ease other_libs fib_text"
    "textstat_text_standard failing_libs fib_text = textstat_text_standard other_libs fib_text"
    "textblob_sentiment failing_libs fib_text = textblob_sentiment other_libs fib_text"
    by (simp_all add: failing_libs_def other_libs_def)
  have "textstat_flesch_reading_ease failing_libs [] \<noteq> textstat_flesch_reading_ease other_libs []"
    by (simp add: failing_libs_def other_libs_def fib_text_def)
  then have b: "failing_libs \<noteq> other_libs" by auto
  from evaluate_deterministic [of failing_libs evaluator fib_text "Some ''generation''" "Some ''coding''" other_libs]
    a b
  show ?thesis by simp
qed

section \<open>Recommendations\<close>

lemma evaluations_of_prompt_twice:
  "evaluations_of_prompt db_evaluated_twice 1
     = [(ex_evaluation 1 10, ex_version2), (ex_evaluation 2 20, ex_version2)]"
  by (simp add: evaluations_of_prompt_def db_evaluated_twice_eq db_two_eq get_version_def
      ex_evaluation_def ex_version1_def ex_version2_def map_filter_simps)

lemma recommend_twice: "get_recommendation db_evaluated_twice 1 1 = Inr ex_recommendation"
proof -
  have "find_owned_prompt db_evaluated_twice 1 1 = Some ex_prompt"
    by (simp add: find_owned_prompt_def db_evaluated_twice_eq db_two_eq ex_prompt_def)
  then show ?thesis
    by (simp add: get_recommendation_def evaluations_of_prompt_twice order_by_desc_def
        ex_recommendation_def ex_evaluation_def ex_version2_def del: One_nat_def)
qed

text \<open>
  Claim C4, as stated: among evaluations with the highest final score the most recent one
  is recommended. In the worked history version 2 has two evaluations with the same final
  score, stored at times 10 and 20; the query orders by final score only, and the
  recommendation is the record of time 10.
\<close>

theorem recommend_tie_counterexample:
  "evaluations db_evaluated_twice = [ex_evaluation 1 10, ex_evaluation 2 20]
   \<and> version_id (ex_evaluation 1 10) = version_id (ex_evaluation 2 20)
   \<and> final_score (ex_evaluation 1 10) = final_score (ex_evaluation 2 20)
   \<and> evaluated_at (ex_evaluation 1 10) < evaluated_at (ex_evaluation 2 20)
   \<and> get_recommendation db_evaluated_twice 1 1 = Inr ex_recommendation
   \<and> rec_evaluation ex_recommendation = ex_evaluation 1 10"
proof -
  have a: "evaluations db_evaluated_twice = [ex_evaluation 1 10, ex_evaluation 2 20]"
    by (simp add: db_evaluated_twice_eq)
  have b: "version_id (ex_evaluation 1 10) = version_id (ex_evaluation 2 20)"
    "final_score (ex_evaluation 1 10) = final_score (ex_evaluation 2 20)"
    "evaluated_at (ex_evaluation 1 10) < evaluated_at (ex_evaluation 2 20)"
    by (simp_all add: ex_evaluation_def)
  have c: "rec_evaluation ex_recommendation = ex_evaluation 1 10"
    by (simp add: ex_recommendation_def)
  from a b c recommend_twice show ?thesis by blast
qed

lemma sorted_desc_map_alt:
  "sorted_wrt (\<lambda>x y. (case y of (e, v) \<Rightarrow> final_score e) \<le> (case x of (e, v) \<Rightarrow> final_score e)) xs \<Longrightarrow>
   sorted_wrt (\<lambda>a b. alt_final_score b \<le> alt_final_score a)
     (map (\<lambda>(e, v). \<lparr>alt_version_number = version_number v, alt_final_score = final_score e,
                      alt_version_id = version_id e\<rparr>) xs)"
  by (induction xs) auto

text \<open>
  Claim C4, amended: for a prompt of the caller, the recommendation fails with \<open>NotFound\<close>
  when no evaluation record exists for any version of the prompt; otherwise it returns as
  best an evaluation record of the prompt whose final score is the highest, together with
  at most 5 alternatives, ordered by descending final score, each of them an evaluation
  record of the prompt other than the best one.
\<close>

theorem recommend_best_and_alternatives:
  assumes owner: "find_owned_prompt db pid uid = Some p"
  shows "(evaluations_of_prompt db pid = [] \<longrightarrow> get_recommendation db uid pid = Inl NotFound)
       \<and> (evaluations_of_prompt db pid \<noteq> [] \<longrightarrow>
            (\<exists>r. get_recommendation db uid pid = Inr r
               \<and> (rec_evaluation r, rec_version r) \<in> set (evaluations_of_prompt db pid)
               \<and> (\<forall>(e, v) \<in> set (evaluations_of_prompt db pid).
                     final_score e \<le> final_score (rec_evaluation r))
               \<and> length (rec_alternatives r) \<le> 5
               \<and> sorted_wrt (\<lambda>a b. alt_final_score b \<le> alt_final_score a) (rec_alternatives r)
               \<and> (\<forall>a \<in> set (rec_alternatives r).
                     \<exists>(e, v) \<in> set (evaluations_of_prompt db pid).
                        e_id e \<noteq> e_id (rec_evaluation r)
                        \<and> a = \<lparr>alt_version_number = version_number v,
                                alt_final_score = final_score e,
                                alt_version_id = version_id e\<rparr>)))"
proof (cases "evaluations_of_prompt db pid = []")
  case True
  with owner show ?thesis
    by (simp add: get_recommendation_def order_by_desc_def)
next
  case False
  let ?key = "\<lambda>(e, v). final_score (e :: prompt_evaluation)"
  let ?xs = "evaluations_of_prompt db pid"
  from False obtain best bv where b: "first_row (order_by_desc ?key ?xs) = Some (best, bv)"
    by (cases "first_row (order_by_desc ?key ?xs)") (auto simp: first_order_by_desc_None)
  from first_order_by_desc_Some [OF b]
  have mem: "(best, bv) \<in> set ?xs" and mx: "\<forall>x \<in> set ?xs. ?key x \<le> final_score best"
    by auto
  let ?alts = "take 5 (order_by_desc ?key (filter (\<lambda>(e, v). e_id e \<noteq> e_id best) ?xs))"
  let ?alt = "\<lambda>(e, v). \<lparr>alt_version_number = version_number v, alt_final_score = final_score e,
                          alt_version_id = version_id (e :: prompt_evaluation)\<rparr>"
  let ?r = "\<lparr>rec_version = bv, rec_evaluation = best, rec_is_current = is_current bv,
             rec_alternatives = map ?alt ?alts\<rparr>"
  have res: "get_recommendation db uid pid = Inr ?r"
    using owner b by (simp add: get_recommendation_def Let_def)
  have len: "length (map ?alt ?alts) \<le> 5" by simp
  have srt: "sorted_wrt (\<lambda>a b. alt_final_score b \<le> alt_final_score a) (map ?alt ?alts)"
    by (intro sorted_desc_map_alt sorted_take sorted_order_by_desc)
  have sub: "set ?alts \<subseteq> {x \<in> set ?xs. (case x of (e, v) \<Rightarrow> e_id e \<noteq> e_id best)}"
    using set_take_subset [of 5 "order_by_desc ?key (filter (\<lambda>(e, v). e_id e \<noteq> e_id best) ?xs)"]
    by (auto simp: set_order_by_desc)
  have alts: "\<forall>a \<in> set (map ?alt ?alts). \<exists>(e, v) \<in> set ?xs. e_id e \<noteq> e_id best \<and> a = ?alt (e, v)"
    using sub by fastforce
  show ?thesis
    using False res mem mx len srt alts by (auto simp del: length_map set_map)
qed


text \<open>
  In the worked history: no recommendation before version 2 is evaluated, and one after.
\<close>

theorem recommend_best_and_alternatives_witness:
  "find_owned_prompt db_two 1 1 = Some ex_prompt
   \<and> evaluations_of_prompt db_two 1 = []
   \<and> get_recommendation db_two 1 1 = Inl NotFound
   \<and> find_owned_prompt db_evaluated_twice 1 1 = Some ex_prompt
   \<and> evaluations_of_prompt db_evaluated_twice 1 \<noteq> []
   \<and> get_recommendation db_evaluated_twice 1 1 = Inr ex_recommendation
   \<and> final_score (rec_evaluation ex_recommendation) = 398 / 5
   \<and> length (rec_alternatives ex_recommendation) = 1"
proof -
  have a: "find_owned_prompt db_two 1 1 = Some ex_prompt"
    by (simp add: find_owned_prompt_def db_two_eq ex_prompt_def)
  have b: "evaluations_of_prompt db_two 1 = []"
    by (simp add: evaluations_of_prompt_def db_two_eq map_filter_simps)
  have c: "find_owned_prompt db_evaluated_twice 1 1 = Some ex_prompt"
    by (simp add: find_owned_prompt_def db_evaluated_twice_eq db_two_eq ex_prompt_def)
  have d: "evaluations_of_prompt db_evaluated_twice 1 \<noteq> []"
    by (simp add: evaluations_of_prompt_twice del: One_nat_def)
  have e: "final_score (rec_evaluation ex_recommendation) = 398 / 5"
    "length (rec_alternatives ex_recommendation) = 1"
    by (simp_all add: ex_recommendation_def ex_evaluation_def)
  from recommend_best_and_alternatives [OF a] recommend_best_and_alternatives [OF c]
    a b c d e recommend_twice
  show ?thesis by simp
qed

text \<open>
  Claim C10: the alternatives are the first five evaluation records of the prompt, by
  descending final score, among those whose identifier differs from the best record's;
  the version of the best record is not excluded. In the worked history, where version 2
  was evaluated twice, the recommendation is version 2 and the one alternative is
  version 2 again.
\<close>

theorem alternatives_exclude_record_not_version:
  "(get_recommendation db uid pid = Inr r \<longrightarrow>
      rec_alternatives r
        = map (\<lambda>(e, v). \<lparr>alt_version_number = version_number v, alt_final_score = final_score e,
                          alt_version_id = version_id e\<rparr>)
            (take 5 (order_by_desc (\<lambda>(e, v). final_score e)
               (filter (\<lambda>(e, v). e_id e \<noteq> e_id (rec_evaluation r))
                  (evaluations_of_prompt db pid)))))
   \<and> get_recommendation db_evaluated_twice 1 1 = Inr ex_recommendation
   \<and> v_id (rec_version ex_recommendation) = 2
   \<and> map alt_version_id (rec_alternatives ex_recommendation) = [2]"
proof -
  have "rec_alternatives r
        = map (\<lambda>(e, v). \<lparr>alt_version_number = version_number v, alt_final_score = final_score e,
                          alt_version_id = version_id e\<rparr>)
            (take 5 (order_by_desc (\<lambda>(e, v). final_score e)
               (filter (\<lambda>(e, v). e_id e \<noteq> e_id (rec_evaluation r))
                  (evaluations_of_prompt db pid))))"
    if "get_recommendation db uid pid = Inr r"
    using that
    by (auto simp: get_recommendation_def Let_def split: option.splits prod.splits)
  moreover have "v_id (rec_version ex_recommendation) = 2"
    "map alt_version_id (rec_alternatives ex_recommendation) = [2]"
    by (simp_all add: ex_recommendation_def ex_version2_def)
  ultimately show ?thesis using recommend_twice by blast
qed

text \<open>
  The alternatives of the worked history, as the general description gives them.
\<close>

theorem alternatives_exclude_record_not_version_witness:
  "get_recommendation db_evaluated_twice 1 1 = Inr ex_recommendation
   \<and> version_id (rec_evaluation ex_recommendation) = 2
   \<and> rec_alternatives ex_recommendation
        = map (\<lambda>(e, v). \<lparr>alt_version_number = version_number v, alt_final_score = final_score e,
                          alt_version_id = version_id e\<rparr>)
            (take 5 (order_by_desc (\<lambda>(e, v). final_score e)
               (filter (\<lambda>(e, v). e_id e \<noteq> e_id (rec_evaluation ex_recommendation))
                  (evaluations_of_prompt db_evaluated_twice 1))))
   \<and> map alt_version_id (rec_alternatives ex_recommendation) = [2]"
proof -
  have "version_id (rec_evaluation ex_recommendation) = 2"
    by (simp add: ex_recommendation_def ex_evaluation_def)
  with alternatives_exclude_record_not_version [of db_evaluated_twice 1 1 ex_recommendation]
  show ?thesis by blast
qed

end
